theory Spec2Isabelle
  imports Main
begin

section \<open>The process entry point (golang/src/main.go)\<close>

subsection \<open>Constants\<close>

definition coordinatorArg :: string where
  "coordinatorArg = ''mrcoordinator''"

definition workerArg :: string where
  "workerArg = ''mrworker''"

definition minArgs :: nat where
  "minArgs = 3"

text \<open>\<open>time.Second\<close>, a \<open>time.Duration\<close> counted in nanoseconds.\<close>

definition sleepDuration :: int where
  "sleepDuration = 1000000000"

subsection \<open>Go error values\<close>

text \<open>
  \<open>fmt.Errorf\<close> without \<open>%w\<close> gives an error that only carries its message; with
  \<open>%w\<close> the error carries the formatted message and the wrapped error.
\<close>

datatype error = ErrorString string | WrapError string error

fun Error :: "error \<Rightarrow> string" where
  "Error (ErrorString s) = s"
| "Error (WrapError s e) = s"

fun Unwrap :: "error \<Rightarrow> error option" where
  "Unwrap (ErrorString s) = None"
| "Unwrap (WrapError s e) = Some e"

definition apostrophe :: char where
  "apostrophe = CHR 0x27"

definition usageError :: error where
  "usageError =
     ErrorString ''Usage: go run main.go [mrcoordinator|mrworker] [plugin_file] [input_files...]''"

definition invalidArgumentError :: "string \<Rightarrow> error" where
  "invalidArgumentError a =
     ErrorString (''Invalid argument: '' @ a @ ''. Use '' @ [apostrophe] @ ''mrcoordinator''
       @ [apostrophe] @ '' or '' @ [apostrophe] @ ''mrworker'' @ [apostrophe])"

definition cannotLoadPluginError :: "string \<Rightarrow> error \<Rightarrow> error" where
  "cannotLoadPluginError filename err =
     WrapError (''cannot load plugin '' @ filename @ '': '' @ Error err) err"

definition cannotFindError :: "string \<Rightarrow> error \<Rightarrow> error" where
  "cannotFindError funcName err =
     WrapError (''cannot find '' @ funcName @ '' in plugin: '' @ Error err) err"

subsection \<open>Plugins, symbols and the collaborators outside main.go\<close>

text \<open>
  The element type \<open>mr.KeyValue\<close> is declared in package \<open>mapreduce/internal\<close>, which
  main.go only imports; it is the type parameter \<open>'kv\<close>.
  A \<open>plugin.Symbol\<close> is an interface value: what matters to main.go is its dynamic type,
  which is the Map signature, the Reduce signature, or anything else (named by its type).
\<close>

type_synonym 'kv mapf = "string \<Rightarrow> string \<Rightarrow> 'kv list"
type_synonym reducef = "string \<Rightarrow> string list \<Rightarrow> string"

datatype 'kv symbol =
    MapFunc "'kv mapf"
  | ReduceFunc reducef
  | OtherSymbol string

text \<open>An opened plugin is its \<open>Lookup\<close> method.\<close>

type_synonym 'kv plugin = "string \<Rightarrow> error + 'kv symbol"

text \<open>
  Everything main.go calls but does not define: \<open>plugin.Open\<close>, and from package
  \<open>mr\<close> the constructor \<open>MakeCoordinator\<close>, the method \<open>Done\<close> and the function
  \<open>Worker\<close>. The coordinator \<open>'c\<close> changes in the background while the entry point
  sleeps: \<open>mr_elapse\<close> is what one \<open>sleepDuration\<close> does to it. \<open>mr_Worker\<close> tells
  whether the call to \<open>mr.Worker\<close> returns.
\<close>

record ('kv, 'c) world =
  plugin_Open :: "string \<Rightarrow> error + 'kv plugin"
  mr_MakeCoordinator :: "string list \<Rightarrow> int \<Rightarrow> 'c"
  mr_Done :: "'c \<Rightarrow> bool"
  mr_elapse :: "'c \<Rightarrow> 'c"
  mr_Worker :: "'kv mapf option \<Rightarrow> reducef option \<Rightarrow> bool"

subsection \<open>Outcomes and observable calls\<close>

text \<open>
  A call returns a value, panics, is still polling when the observation ends
  (\<open>Polling\<close>), or sits inside \<open>mr.Worker\<close> for good (\<open>Serving\<close>).
\<close>

datatype 'a outcome = Return 'a | Panic string | Polling | Serving

datatype 'kv event =
    MakeCoordinatorCall "string list" int
  | DoneCall bool
  | Sleep int
  | WorkerCall "'kv mapf option" "reducef option"

fun coordinatorCalls :: "'kv event list \<Rightarrow> (string list \<times> int) list" where
  "coordinatorCalls [] = []"
| "coordinatorCalls (MakeCoordinatorCall files n # es) = (files, n) # coordinatorCalls es"
| "coordinatorCalls (e # es) = coordinatorCalls es"

fun startsCoordinator :: "'kv event \<Rightarrow> bool" where
  "startsCoordinator (MakeCoordinatorCall files n) = True"
| "startsCoordinator e = False"

fun startsWorker :: "'kv event \<Rightarrow> bool" where
  "startsWorker (WorkerCall m r) = True"
| "startsWorker e = False"

fun doneAnswers :: "'kv event list \<Rightarrow> bool list" where
  "doneAnswers [] = []"
| "doneAnswers (DoneCall b # es) = b # doneAnswers es"
| "doneAnswers (e # es) = doneAnswers es"

subsection \<open>loadPlugin and lookupPluginFunc\<close>

text \<open>Go returns the pair (symbol, error), one of them nil.\<close>

definition lookupPluginFunc :: "'kv plugin \<Rightarrow> string \<Rightarrow> 'kv symbol option \<times> error option" where
  "lookupPluginFunc p funcName =
     (case p funcName of
        Inl err \<Rightarrow> (None, Some (cannotFindError funcName err))
      | Inr symbol \<Rightarrow> (Some symbol, None))"

text \<open>
  The single-value type assertions \<open>mapf.(func(string, string) []mr.KeyValue)\<close> and
  \<open>reducef.(func(string, []string) string)\<close>: they panic when the dynamic type differs.
\<close>

definition notMapFunc :: string where
  "notMapFunc = ''interface conversion: plugin.Symbol is not func(string, string) []mr.KeyValue''"

definition notReduceFunc :: string where
  "notReduceFunc = ''interface conversion: plugin.Symbol is not func(string, []string) string''"

fun assertMapFunc :: "'kv symbol option \<Rightarrow> 'kv mapf outcome" where
  "assertMapFunc (Some (MapFunc f)) = Return f"
| "assertMapFunc s = Panic notMapFunc"

fun assertReduceFunc :: "'kv symbol option \<Rightarrow> reducef outcome" where
  "assertReduceFunc (Some (ReduceFunc f)) = Return f"
| "assertReduceFunc s = Panic notReduceFunc"

fun isMapFunc :: "'kv symbol \<Rightarrow> bool" where
  "isMapFunc (MapFunc f) = True"
| "isMapFunc s = False"

fun isReduceFunc :: "'kv symbol \<Rightarrow> bool" where
  "isReduceFunc (ReduceFunc f) = True"
| "isReduceFunc s = False"

definition loadPlugin ::
  "('kv, 'c) world \<Rightarrow> string \<Rightarrow> ('kv mapf option \<times> reducef option \<times> error option) outcome" where
  "loadPlugin w filename =
     (case plugin_Open w filename of
        Inl err \<Rightarrow> Return (None, None, Some (cannotLoadPluginError filename err))
      | Inr p \<Rightarrow>
          (case lookupPluginFunc p ''Map'' of
             (mapf, Some err) \<Rightarrow> Return (None, None, Some err)
           | (mapf, None) \<Rightarrow>
               (case lookupPluginFunc p ''Reduce'' of
                  (reducef, Some err) \<Rightarrow> Return (None, None, Some err)
                | (reducef, None) \<Rightarrow>
                    (case assertMapFunc mapf of
                       Return m \<Rightarrow>
                         (case assertReduceFunc reducef of
                            Return r \<Rightarrow> Return (Some m, Some r, None)
                          | Panic msg \<Rightarrow> Panic msg
                          | Polling \<Rightarrow> Polling
                          | Serving \<Rightarrow> Serving)
                     | Panic msg \<Rightarrow> Panic msg
                     | Polling \<Rightarrow> Polling
                     | Serving \<Rightarrow> Serving))))"

subsection \<open>runWorker\<close>

text \<open>\<open>os.Args[2]\<close> panics when the index is out of range.\<close>

definition runWorker ::
  "('kv, 'c) world \<Rightarrow> string list \<Rightarrow> 'kv event list \<times> error option outcome" where
  "runWorker w args =
     (if length args \<le> 2 then ([], Panic ''index out of range [2]'')
      else
        (case loadPlugin w (args ! 2) of
           Return (mapf, reducef, err) \<Rightarrow>
             (if err \<noteq> None then ([], Return err)
              else ([WorkerCall mapf reducef],
                    if mr_Worker w mapf reducef then Return None else Serving))
         | Panic msg \<Rightarrow> ([], Panic msg)
         | Polling \<Rightarrow> ([], Polling)
         | Serving \<Rightarrow> ([], Serving)))"

subsection \<open>runCoordinator\<close>

text \<open>
  The loop \<open>for !m.Done() { time.Sleep(sleepDuration) }\<close>, observed for at most
  \<open>fuel\<close> calls of \<open>Done\<close>. It returns once \<open>Done\<close> has answered true; an
  observation that ends earlier reports \<open>Polling\<close>.
\<close>

fun pollDone :: "('kv, 'c) world \<Rightarrow> nat \<Rightarrow> 'c \<Rightarrow> 'kv event list \<times> unit outcome" where
  "pollDone w 0 m = ([], Polling)"
| "pollDone w (Suc fuel) m =
     (if mr_Done w m then ([DoneCall True], Return ())
      else (case pollDone w fuel (mr_elapse w m) of
              (tr, r) \<Rightarrow> (DoneCall False # Sleep sleepDuration # tr, r)))"

text \<open>\<open>os.Args[2:]\<close> panics when the slice has fewer than two elements.\<close>

definition runCoordinator ::
  "('kv, 'c) world \<Rightarrow> nat \<Rightarrow> string list \<Rightarrow> 'kv event list \<times> error option outcome" where
  "runCoordinator w fuel args =
     (if length args < 2 then ([], Panic ''slice bounds out of range [2:]'')
      else
        (let files = drop 2 args;
             m = mr_MakeCoordinator w files 10
         in (case pollDone w fuel m of
               (tr, Return u) \<Rightarrow>
                 (MakeCoordinatorCall files 10 # tr @ [Sleep sleepDuration], Return None)
             | (tr, Panic msg) \<Rightarrow> (MakeCoordinatorCall files 10 # tr, Panic msg)
             | (tr, Polling) \<Rightarrow> (MakeCoordinatorCall files 10 # tr, Polling)
             | (tr, Serving) \<Rightarrow> (MakeCoordinatorCall files 10 # tr, Serving))))"

subsection \<open>run\<close>

definition run ::
  "('kv, 'c) world \<Rightarrow> nat \<Rightarrow> string list \<Rightarrow> 'kv event list \<times> error option outcome" where
  "run w fuel args =
     (if length args < minArgs then ([], Return (Some usageError))
      else if args ! 1 = coordinatorArg then runCoordinator w fuel args
      else if args ! 1 = workerArg then runWorker w args
      else ([], Return (Some (invalidArgumentError (args ! 1)))))"

text \<open>The state of the coordinator at the \<open>k\<close>-th call of \<open>Done\<close>.\<close>

definition polled :: "('kv, 'c) world \<Rightarrow> string list \<Rightarrow> nat \<Rightarrow> 'c" where
  "polled w args k = (mr_elapse w ^^ k) (mr_MakeCoordinator w (drop 2 args) 10)"

subsection \<open>Example plugins, worlds and command lines\<close>

definition wcMap :: "(string \<times> string) mapf" where
  "wcMap filename contents = [(contents, ''1'')]"

definition wcReduce :: reducef where
  "wcReduce key vals = concat vals"

definition symbolNotFound :: error where
  "symbolNotFound = ErrorString ''plugin: symbol not found''"

definition noSuchFile :: error where
  "noSuchFile = ErrorString ''plugin.Open: no such file''"

definition wcPlugin :: "(string \<times> string) plugin" where
  "wcPlugin n =
     (if n = ''Map'' then Inr (MapFunc wcMap)
      else if n = ''Reduce'' then Inr (ReduceFunc wcReduce)
      else Inl symbolNotFound)"

text \<open>A plugin whose \<open>Map\<close> is a variable of type int.\<close>

definition mistypedPlugin :: "(string \<times> string) plugin" where
  "mistypedPlugin n =
     (if n = ''Map'' then Inr (OtherSymbol ''*int'')
      else if n = ''Reduce'' then Inr (ReduceFunc wcReduce)
      else Inl symbolNotFound)"

text \<open>A plugin whose \<open>Reduce\<close> has the signature of Map.\<close>

definition mistypedReducePlugin :: "(string \<times> string) plugin" where
  "mistypedReducePlugin n =
     (if n = ''Map'' then Inr (MapFunc wcMap)
      else if n = ''Reduce'' then Inr (MapFunc wcMap)
      else Inl symbolNotFound)"

definition mapOnlyPlugin :: "(string \<times> string) plugin" where
  "mapOnlyPlugin n = (if n = ''Map'' then Inr (MapFunc wcMap) else Inl symbolNotFound)"

definition demoOpen :: "string \<Rightarrow> error + (string \<times> string) plugin" where
  "demoOpen f =
     (if f = ''wc.so'' then Inr wcPlugin
      else if f = ''mistyped.so'' then Inr mistypedPlugin
      else if f = ''mistyped_reduce.so'' then Inr mistypedReducePlugin
      else if f = ''maponly.so'' then Inr mapOnlyPlugin
      else Inl noSuchFile)"

text \<open>A coordinator that counts the sleeps it has seen and is done after two of them.\<close>

definition demoWorld :: "(string \<times> string, nat) world" where
  "demoWorld =
     \<lparr>plugin_Open = demoOpen,
      mr_MakeCoordinator = (\<lambda>files n. 0),
      mr_Done = (\<lambda>m. 2 \<le> m),
      mr_elapse = Suc,
      mr_Worker = (\<lambda>m r. True)\<rparr>"

text \<open>A coordinator whose job never reaches Done.\<close>

definition stalledWorld :: "(string \<times> string, nat) world" where
  "stalledWorld = demoWorld\<lparr>mr_Done := (\<lambda>m. False)\<rparr>"

definition coordinatorArgs :: "string list" where
  "coordinatorArgs = [''mr_main'', ''mrcoordinator'', ''pg-1.txt'', ''pg-2.txt'']"

definition workerArgs :: "string \<Rightarrow> string list" where
  "workerArgs f = [''mr_main'', ''mrworker'', f]"

section \<open>The wire protocol (the proto3 file shipped with main.go)\<close>

datatype protoType = ProtoString | ProtoMessage string

record protoField =
  fieldRepeated :: bool
  fieldType :: protoType
  fieldName :: string
  fieldNumber :: nat

record protoMessage =
  messageName :: string
  messageFields :: "protoField list"

record protoRpc =
  rpcName :: string
  rpcRequest :: string
  rpcResponse :: string

definition MapRequest :: protoMessage where
  "MapRequest = \<lparr>messageName = ''MapRequest'', messageFields =
     [\<lparr>fieldRepeated = False, fieldType = ProtoString, fieldName = ''file_path'', fieldNumber = 1\<rparr>,
      \<lparr>fieldRepeated = False, fieldType = ProtoString, fieldName = ''map_function'', fieldNumber = 2\<rparr>]\<rparr>"

definition MapResponse :: protoMessage where
  "MapResponse = \<lparr>messageName = ''MapResponse'', messageFields =
     [\<lparr>fieldRepeated = True, fieldType = ProtoMessage ''KeyValuePair'',
       fieldName = ''intermediate_results'', fieldNumber = 1\<rparr>]\<rparr>"

definition ReduceRequest :: protoMessage where
  "ReduceRequest = \<lparr>messageName = ''ReduceRequest'', messageFields =
     [\<lparr>fieldRepeated = True, fieldType = ProtoMessage ''KeyValuePair'',
       fieldName = ''intermediate_results'', fieldNumber = 1\<rparr>,
      \<lparr>fieldRepeated = False, fieldType = ProtoString, fieldName = ''reduce_function'', fieldNumber = 2\<rparr>]\<rparr>"

definition ReduceResponse :: protoMessage where
  "ReduceResponse = \<lparr>messageName = ''ReduceResponse'', messageFields =
     [\<lparr>fieldRepeated = False, fieldType = ProtoString, fieldName = ''final_result'', fieldNumber = 1\<rparr>]\<rparr>"

definition KeyValuePair :: protoMessage where
  "KeyValuePair = \<lparr>messageName = ''KeyValuePair'', messageFields =
     [\<lparr>fieldRepeated = False, fieldType = ProtoString, fieldName = ''key'', fieldNumber = 1\<rparr>,
      \<lparr>fieldRepeated = False, fieldType = ProtoString, fieldName = ''value'', fieldNumber = 2\<rparr>]\<rparr>"

definition PingRequest :: protoMessage where
  "PingRequest = \<lparr>messageName = ''PingRequest'', messageFields = []\<rparr>"

definition PingResponse :: protoMessage where
  "PingResponse = \<lparr>messageName = ''PingResponse'', messageFields =
     [\<lparr>fieldRepeated = False, fieldType = ProtoString, fieldName = ''status'', fieldNumber = 1\<rparr>]\<rparr>"

definition protoMessages :: "protoMessage list" where
  "protoMessages =
     [MapRequest, MapResponse, ReduceRequest, ReduceResponse, KeyValuePair, PingRequest, PingResponse]"

definition MapReduceService :: "protoRpc list" where
  "MapReduceService =
     [\<lparr>rpcName = ''Map'', rpcRequest = ''MapRequest'', rpcResponse = ''MapResponse''\<rparr>,
      \<lparr>rpcName = ''Reduce'', rpcRequest = ''ReduceRequest'', rpcResponse = ''ReduceResponse''\<rparr>,
      \<lparr>rpcName = ''Ping'', rpcRequest = ''PingRequest'', rpcResponse = ''PingResponse''\<rparr>]"

text \<open>
  What a message carries once its message-typed fields are resolved: a string, a list
  (a \<open>repeated\<close> field) or a tuple of named fields. Resolution follows message
  references to a bounded depth, since proto3 messages may refer to themselves.
\<close>

datatype shape = StringShape | ListShape shape | TupleShape "(string \<times> shape) list"

fun findMessage :: "protoMessage list \<Rightarrow> string \<Rightarrow> protoMessage option" where
  "findMessage [] n = None"
| "findMessage (m # ms) n = (if messageName m = n then Some m else findMessage ms n)"

fun allSome :: "'a option list \<Rightarrow> 'a list option" where
  "allSome [] = Some []"
| "allSome (None # xs) = None"
| "allSome (Some x # xs) = (case allSome xs of None \<Rightarrow> None | Some ys \<Rightarrow> Some (x # ys))"

fun typeShape :: "nat \<Rightarrow> protoMessage list \<Rightarrow> protoType \<Rightarrow> shape option" where
  "typeShape d ms ProtoString = Some StringShape"
| "typeShape 0 ms (ProtoMessage n) = None"
| "typeShape (Suc d) ms (ProtoMessage n) =
     (case findMessage ms n of
        None \<Rightarrow> None
      | Some m \<Rightarrow>
          (case allSome
                  (map (\<lambda>f. case typeShape d ms (fieldType f) of
                               None \<Rightarrow> None
                             | Some s \<Rightarrow>
                                 Some (fieldName f, if fieldRepeated f then ListShape s else s))
                       (messageFields m)) of
             None \<Rightarrow> None
           | Some fs \<Rightarrow> Some (TupleShape fs)))"

fun findRpc :: "protoRpc list \<Rightarrow> string \<Rightarrow> protoRpc option" where
  "findRpc [] n = None"
| "findRpc (r # rs) n = (if rpcName r = n then Some r else findRpc rs n)"

definition requestShape :: "string \<Rightarrow> shape option" where
  "requestShape n =
     (case findRpc MapReduceService n of
        None \<Rightarrow> None
      | Some r \<Rightarrow> typeShape 3 protoMessages (ProtoMessage (rpcRequest r)))"

definition responseShape :: "string \<Rightarrow> shape option" where
  "responseShape n =
     (case findRpc MapReduceService n of
        None \<Rightarrow> None
      | Some r \<Rightarrow> typeShape 3 protoMessages (ProtoMessage (rpcResponse r)))"

definition keyValuePairs :: shape where
  "keyValuePairs = ListShape (TupleShape [(''key'', StringShape), (''value'', StringShape)])"

section \<open>The coordinator core (package mapreduce/internal, not part of the sources)\<close>

text \<open>
  main.go imports the package that holds the Task Registry, the Scheduler, the Phase
  Controller and the Result Assembler, and calls into it; the package itself is not
  among the sources. Its operations are modelled below from the specification.
\<close>

subsection \<open>Data model\<close>

text \<open>
  Modelled from the spec: the data model of section 3, missing with package
  mapreduce/internal. A task has a status in Pending, Dispatched, Completed, an input
  payload (a file reference for a MapTask, the grouped records of one partition for a
  ReduceTask), an assigned worker endpoint and a dispatch deadline (set only while
  Dispatched) and a result payload (set only when Completed). The identifier of a task
  is its kind together with its position in the registry: Map tasks are numbered by
  input split, Reduce tasks 0..R-1.
\<close>

datatype status = Pending | Dispatched | Completed

datatype kind = MapTask | ReduceTask

datatype phase = Mapping | Reducing | Done

datatype health = Alive | Unresponsive

type_synonym intermediateRecord = "string \<times> string"

type_synonym grouped = "(string \<times> string list) list"

datatype payload = FileRef string | GroupedRecords grouped

datatype taskResult = MapOutput "intermediateRecord list" | ReduceOutput string

record task =
  taskInput :: payload
  taskStatus :: status
  taskWorker :: "string option"
  taskDeadline :: "nat option"
  taskResult :: "taskResult option"

record registry =
  mapTasks :: "task list"
  reduceTasks :: "task list"

type_synonym taskId = "kind \<times> nat"

record workerEndpoint =
  address :: string
  health :: health
  lastProbe :: nat

datatype coordError = InvalidTransition

text \<open>
  Modelled from the spec: access to the Task Registry by task identifier (section 4.1),
  missing with package mapreduce/internal: the tasks of one kind, the task behind an
  identifier, and the replacement of that task.
\<close>

fun tasksOf :: "registry \<Rightarrow> kind \<Rightarrow> task list" where
  "tasksOf reg MapTask = mapTasks reg"
| "tasksOf reg ReduceTask = reduceTasks reg"

fun setTasks :: "registry \<Rightarrow> kind \<Rightarrow> task list \<Rightarrow> registry" where
  "setTasks reg MapTask ts = reg\<lparr>mapTasks := ts\<rparr>"
| "setTasks reg ReduceTask ts = reg\<lparr>reduceTasks := ts\<rparr>"

fun lookupTask :: "registry \<Rightarrow> taskId \<Rightarrow> task option" where
  "lookupTask reg (k, i) = (if i < length (tasksOf reg k) then Some (tasksOf reg k ! i) else None)"

fun updateTask :: "registry \<Rightarrow> taskId \<Rightarrow> task \<Rightarrow> registry" where
  "updateTask reg (k, i) t = setTasks reg k ((tasksOf reg k)[i := t])"

text \<open>
  Modelled from the spec: task creation (sections 3 and 4.4), missing with package
  mapreduce/internal: a task starts Pending, with no worker, deadline or result; and the
  test that every task of a kind is Completed.
\<close>

definition newTask :: "payload \<Rightarrow> task" where
  "newTask p = \<lparr>taskInput = p, taskStatus = Pending, taskWorker = None,
                taskDeadline = None, taskResult = None\<rparr>"

definition allCompleted :: "registry \<Rightarrow> kind \<Rightarrow> bool" where
  "allCompleted reg k = list_all (\<lambda>t. taskStatus t = Completed) (tasksOf reg k)"

subsection \<open>Task Registry\<close>

text \<open>
  Modelled from the spec: \<open>allPending(kind)\<close> of section 4.1, missing with package
  mapreduce/internal: the tasks of the given kind with status Pending, in ascending
  identifier order.
\<close>

definition allPending :: "registry \<Rightarrow> kind \<Rightarrow> taskId list" where
  "allPending reg k =
     map (\<lambda>i. (k, i)) (filter (\<lambda>i. taskStatus (tasksOf reg k ! i) = Pending)
                               [0..<length (tasksOf reg k)])"

text \<open>
  Modelled from the spec: \<open>markDispatched(taskId, worker, deadline)\<close> of section 4.1,
  missing with package mapreduce/internal: it fails with InvalidTransition if the task
  is not Pending; otherwise the task becomes Dispatched with that worker and deadline.
\<close>

definition markDispatched :: "registry \<Rightarrow> taskId \<Rightarrow> string \<Rightarrow> nat \<Rightarrow> coordError + registry" where
  "markDispatched reg tid w d =
     (case lookupTask reg tid of
        None \<Rightarrow> Inl InvalidTransition
      | Some t \<Rightarrow>
          (if taskStatus t = Pending
           then Inr (updateTask reg tid
                  (t\<lparr>taskStatus := Dispatched, taskWorker := Some w, taskDeadline := Some d\<rparr>))
           else Inl InvalidTransition))"

text \<open>
  Modelled from the spec: \<open>markCompleted(taskId, result)\<close> of section 4.1, missing with
  package mapreduce/internal: a no-op (not an error) if the task is already Completed.
  A status only moves Pending, Dispatched, Completed or Dispatched back to Pending, so
  the result is stored for a Dispatched task only; the worker and the deadline, set only
  while Dispatched, are cleared.
\<close>

definition markCompleted :: "registry \<Rightarrow> taskId \<Rightarrow> taskResult \<Rightarrow> coordError + registry" where
  "markCompleted reg tid r =
     (case lookupTask reg tid of
        None \<Rightarrow> Inr reg
      | Some t \<Rightarrow>
          (if taskStatus t = Completed then Inr reg
           else if taskStatus t = Dispatched
           then Inr (updateTask reg tid
                  (t\<lparr>taskStatus := Completed, taskWorker := None, taskDeadline := None,
                     taskResult := Some r\<rparr>))
           else Inr reg))"

text \<open>
  Modelled from the spec: \<open>markTimedOut(taskId)\<close> of section 4.1, missing with package
  mapreduce/internal: Dispatched goes back to Pending only if the task is still
  Dispatched for the deadline that expired; the expired deadline is the second argument.
\<close>

definition markTimedOut :: "registry \<Rightarrow> taskId \<Rightarrow> nat \<Rightarrow> coordError + registry" where
  "markTimedOut reg tid d =
     (case lookupTask reg tid of
        None \<Rightarrow> Inr reg
      | Some t \<Rightarrow>
          (if taskStatus t = Dispatched \<and> taskDeadline t = Some d
           then Inr (updateTask reg tid
                  (t\<lparr>taskStatus := Pending, taskWorker := None, taskDeadline := None\<rparr>))
           else Inr reg))"

text \<open>The registry operations as data, to speak about every later sequence of calls.\<close>

datatype registryOp =
    MarkDispatched taskId string nat
  | MarkCompleted taskId taskResult
  | MarkTimedOut taskId nat

fun applyOp :: "registry \<Rightarrow> registryOp \<Rightarrow> coordError + registry" where
  "applyOp reg (MarkDispatched tid w d) = markDispatched reg tid w d"
| "applyOp reg (MarkCompleted tid r) = markCompleted reg tid r"
| "applyOp reg (MarkTimedOut tid d) = markTimedOut reg tid d"

fun applyOps :: "registry \<Rightarrow> registryOp list \<Rightarrow> coordError + registry" where
  "applyOps reg [] = Inr reg"
| "applyOps reg (op # ops) =
     (case applyOp reg op of Inl e \<Rightarrow> Inl e | Inr reg' \<Rightarrow> applyOps reg' ops)"

subsection \<open>Result Assembler\<close>

text \<open>
  Modelled from the spec: the grouping of section 4.5, missing with package
  mapreduce/internal: within a partition all values of one key are collected in one
  sequence; a record is routed to partition \<open>hash(key) mod R\<close>. The hash function is a
  parameter.
\<close>

fun addToGroup :: "string \<Rightarrow> string \<Rightarrow> grouped \<Rightarrow> grouped" where
  "addToGroup k v [] = [(k, [v])]"
| "addToGroup k v ((k', vs) # gs) =
     (if k' = k then (k', vs @ [v]) # gs else (k', vs) # addToGroup k v gs)"

definition partitionOf :: "(string \<Rightarrow> nat) \<Rightarrow> nat \<Rightarrow> string \<Rightarrow> nat" where
  "partitionOf h R k = h k mod R"

definition route :: "(string \<Rightarrow> nat) \<Rightarrow> nat \<Rightarrow> grouped list \<Rightarrow> intermediateRecord \<Rightarrow> grouped list" where
  "route h R parts r =
     (let p = partitionOf h R (fst r)
      in if p < length parts then parts[p := addToGroup (fst r) (snd r) (parts ! p)] else parts)"

definition partitionRecords :: "(string \<Rightarrow> nat) \<Rightarrow> nat \<Rightarrow> intermediateRecord list \<Rightarrow> grouped list" where
  "partitionRecords h R recs = foldl (route h R) (replicate R []) recs"


record assembler =
  buffer :: "intermediateRecord list"
  cached :: "grouped list option"
  finals :: "(nat \<times> string) list"

text \<open>
  Modelled from the spec: \<open>onMapCompleted\<close>, \<open>partitionForReduce\<close> and
  \<open>onReduceCompleted\<close> of section 4.5, missing with package mapreduce/internal:
  Map output is appended to the buffer; the buffer is consumed exactly once, a second
  call returning the cached partitions; a Reduce output is recorded for its partition.
\<close>

definition onMapCompleted :: "assembler \<Rightarrow> intermediateRecord list \<Rightarrow> assembler" where
  "onMapCompleted a recs = a\<lparr>buffer := buffer a @ recs\<rparr>"

definition partitionForReduce ::
  "(string \<Rightarrow> nat) \<Rightarrow> nat \<Rightarrow> assembler \<Rightarrow> grouped list \<times> assembler" where
  "partitionForReduce h R a =
     (case cached a of
        Some parts \<Rightarrow> (parts, a)
      | None \<Rightarrow>
          (let parts = partitionRecords h R (buffer a)
           in (parts, a\<lparr>buffer := [], cached := Some parts\<rparr>)))"

definition onReduceCompleted :: "assembler \<Rightarrow> nat \<Rightarrow> string \<Rightarrow> assembler" where
  "onReduceCompleted a p v = a\<lparr>finals := finals a @ [(p, v)]\<rparr>"

subsection \<open>Job state, Liveness Monitor, Scheduler and Phase Controller\<close>

record job =
  jobPhase :: phase
  jobRegistry :: registry
  jobEndpoints :: "workerEndpoint list"
  jobAssembler :: assembler

text \<open>The fixed parameters of a job: the hash function, R and the dispatch deadline T.\<close>

record settings =
  hashKey :: "string \<Rightarrow> nat"
  nReduce :: nat
  deadlineT :: nat

text \<open>
  Modelled from the spec: job creation of sections 3 and 4.4, missing with package
  mapreduce/internal: one Pending MapTask per input split, no ReduceTask before the Map
  phase closes, phase Mapping, a static set of worker endpoints.
\<close>

definition makeJob :: "string list \<Rightarrow> workerEndpoint list \<Rightarrow> job" where
  "makeJob splits eps =
     \<lparr>jobPhase = Mapping,
      jobRegistry = \<lparr>mapTasks = map (\<lambda>f. newTask (FileRef f)) splits, reduceTasks = []\<rparr>,
      jobEndpoints = eps,
      jobAssembler = \<lparr>buffer = [], cached = None, finals = []\<rparr>\<rparr>"

text \<open>
  Modelled from the spec: the probe of section 4.2, missing with package
  mapreduce/internal: success marks the endpoint Alive and refreshes its last-probe
  time, failure marks it Unresponsive; an endpoint is created when first observed and
  never removed; tasks dispatched to it are left alone.
\<close>

fun probeEndpoint :: "workerEndpoint list \<Rightarrow> string \<Rightarrow> bool \<Rightarrow> nat \<Rightarrow> workerEndpoint list" where
  "probeEndpoint [] a ok now =
     (if ok then [\<lparr>address = a, health = Alive, lastProbe = now\<rparr>] else [])"
| "probeEndpoint (e # es) a ok now =
     (if address e = a
      then (if ok then e\<lparr>health := Alive, lastProbe := now\<rparr> else e\<lparr>health := Unresponsive\<rparr>) # es
      else e # probeEndpoint es a ok now)"

text \<open>
  Modelled from the spec: \<open>dispatchNext(phaseKind)\<close> of section 4.3, missing with
  package mapreduce/internal: the lowest-identifier Pending task of the kind goes to an
  Alive endpoint that holds no other Dispatched task, with deadline now + T; a no-op
  when there is no Pending task or no free Alive endpoint.
\<close>

definition holdsTask :: "registry \<Rightarrow> string \<Rightarrow> bool" where
  "holdsTask reg a =
     list_ex (\<lambda>t. taskStatus t = Dispatched \<and> taskWorker t = Some a)
             (mapTasks reg @ reduceTasks reg)"

definition freeAlive :: "job \<Rightarrow> string list" where
  "freeAlive j =
     map address (filter (\<lambda>e. health e = Alive \<and> \<not> holdsTask (jobRegistry j) (address e))
                         (jobEndpoints j))"

definition dispatchNext :: "settings \<Rightarrow> job \<Rightarrow> kind \<Rightarrow> nat \<Rightarrow> coordError + job" where
  "dispatchNext cfg j k now =
     (case allPending (jobRegistry j) k of
        [] \<Rightarrow> Inr j
      | tid # rest \<Rightarrow>
          (case freeAlive j of
             [] \<Rightarrow> Inr j
           | w # ws \<Rightarrow>
               (case markDispatched (jobRegistry j) tid w (now + deadlineT cfg) of
                  Inl e \<Rightarrow> Inl e
                | Inr reg \<Rightarrow> Inr (j\<lparr>jobRegistry := reg\<rparr>))))"

text \<open>
  Modelled from the spec: the Phase Controller of section 4.4, missing with package
  mapreduce/internal: when the last MapTask becomes Completed the buffered records are
  partitioned into R groups and R Pending ReduceTasks are materialised, each with its
  partition as input, and the phase becomes Reducing; when the last ReduceTask becomes
  Completed the phase becomes Done; Done is terminal.
\<close>

definition advancePhase :: "settings \<Rightarrow> job \<Rightarrow> job" where
  "advancePhase cfg j =
     (case jobPhase j of
        Mapping \<Rightarrow>
          (if allCompleted (jobRegistry j) MapTask
           then (case partitionForReduce (hashKey cfg) (nReduce cfg) (jobAssembler j) of
                   (parts, a) \<Rightarrow>
                     j\<lparr>jobPhase := Reducing,
                       jobRegistry := (jobRegistry j)
                         \<lparr>reduceTasks := map (\<lambda>g. newTask (GroupedRecords g)) parts\<rparr>,
                       jobAssembler := a\<rparr>)
           else j)
      | Reducing \<Rightarrow>
          (if allCompleted (jobRegistry j) ReduceTask then j\<lparr>jobPhase := Done\<rparr> else j)
      | Done \<Rightarrow> j)"

definition schedulingPass :: "settings \<Rightarrow> job \<Rightarrow> nat \<Rightarrow> coordError + job" where
  "schedulingPass cfg j now =
     (case jobPhase j of
        Mapping \<Rightarrow> dispatchNext cfg j MapTask now
      | Reducing \<Rightarrow> dispatchNext cfg j ReduceTask now
      | Done \<Rightarrow> Inr j)"

text \<open>
  Modelled from the spec: the handling of a successful response in section 4.3, missing
  with package mapreduce/internal: \<open>markCompleted\<close>, then the result is handed to the
  Result Assembler and the Phase Controller looks at the registry. A response for a task
  that is not Dispatched any more is discarded.
\<close>

definition onResponse :: "settings \<Rightarrow> job \<Rightarrow> taskId \<Rightarrow> taskResult \<Rightarrow> coordError + job" where
  "onResponse cfg j tid r =
     (case lookupTask (jobRegistry j) tid of
        None \<Rightarrow> Inr j
      | Some t \<Rightarrow>
          (if taskStatus t \<noteq> Dispatched then Inr j
           else (case markCompleted (jobRegistry j) tid r of
                   Inl e \<Rightarrow> Inl e
                 | Inr reg \<Rightarrow>
                     Inr (advancePhase cfg
                       (j\<lparr>jobRegistry := reg,
                          jobAssembler :=
                            (case r of
                               MapOutput recs \<Rightarrow> onMapCompleted (jobAssembler j) recs
                             | ReduceOutput v \<Rightarrow> onReduceCompleted (jobAssembler j) (snd tid) v)\<rparr>)))))"

text \<open>
  What can happen to a job: a scheduling pass of the Phase Controller at some time, a
  call of \<open>dispatchNext\<close> for any kind, a successful Map or Reduce response, the
  expiry of a dispatch deadline (or a transport failure of that dispatch), and the
  outcome of a liveness probe.
\<close>

datatype jobEvent =
    SchedulingPass nat
  | DispatchNext kind nat
  | MapSucceeded nat "intermediateRecord list"
  | ReduceSucceeded nat string
  | DeadlineExpired taskId nat
  | Probed string bool nat

fun step :: "settings \<Rightarrow> job \<Rightarrow> jobEvent \<Rightarrow> coordError + job" where
  "step cfg j (SchedulingPass now) = schedulingPass cfg j now"
| "step cfg j (DispatchNext k now) = dispatchNext cfg j k now"
| "step cfg j (MapSucceeded i recs) = onResponse cfg j (MapTask, i) (MapOutput recs)"
| "step cfg j (ReduceSucceeded i v) = onResponse cfg j (ReduceTask, i) (ReduceOutput v)"
| "step cfg j (DeadlineExpired tid d) =
     (case markTimedOut (jobRegistry j) tid d of
        Inl e \<Rightarrow> Inl e
      | Inr reg \<Rightarrow> Inr (j\<lparr>jobRegistry := reg\<rparr>))"
| "step cfg j (Probed a ok now) = Inr (j\<lparr>jobEndpoints := probeEndpoint (jobEndpoints j) a ok now\<rparr>)"

fun steps :: "settings \<Rightarrow> job \<Rightarrow> jobEvent list \<Rightarrow> coordError + job" where
  "steps cfg j [] = Inr j"
| "steps cfg j (e # es) = (case step cfg j e of Inl err \<Rightarrow> Inl err | Inr j' \<Rightarrow> steps cfg j' es)"

fun phaseRank :: "phase \<Rightarrow> nat" where
  "phaseRank Mapping = 0"
| "phaseRank Reducing = 1"
| "phaseRank Done = 2"

text \<open>
  Modelled from the spec: the JobState invariant of section 3, missing with package
  mapreduce/internal: no ReduceTask exists while the phase is Mapping, every MapTask is
  Completed once the phase is Reducing, and every task is Completed once it is Done.
\<close>

definition phaseInvariant :: "job \<Rightarrow> bool" where
  "phaseInvariant j =
     (case jobPhase j of
        Mapping \<Rightarrow> reduceTasks (jobRegistry j) = []
      | Reducing \<Rightarrow> allCompleted (jobRegistry j) MapTask
      | Done \<Rightarrow> allCompleted (jobRegistry j) MapTask \<and> allCompleted (jobRegistry j) ReduceTask)"

text \<open>
  Modelled from the spec: \<open>finalResults()\<close> of section 4.5, missing with package
  mapreduce/internal: the mapping from partition to value, only once Done.
\<close>

definition finalResults :: "job \<Rightarrow> (nat \<times> string) list option" where
  "finalResults j = (if jobPhase j = Done then Some (finals (jobAssembler j)) else None)"

subsection \<open>Example job: word count over two splits, R = 2, two workers\<close>

text \<open>A hash that places the keys a and c in partition 0 and b in partition 1.\<close>

definition wordHash :: "string \<Rightarrow> nat" where
  "wordHash k = (if k = ''b'' then 1 else 0)"


definition demoSettings :: settings where
  "demoSettings = \<lparr>hashKey = wordHash, nReduce = 2, deadlineT = 10\<rparr>"

definition demoEndpoints :: "workerEndpoint list" where
  "demoEndpoints =
     [\<lparr>address = ''w1'', health = Alive, lastProbe = 0\<rparr>,
      \<lparr>address = ''w2'', health = Alive, lastProbe = 0\<rparr>]"

definition demoJob :: job where
  "demoJob = makeJob [''split-0'', ''split-1''] demoEndpoints"

text \<open>
  Both Map tasks are dispatched; the second worker answers, the first never does: its
  deadline expires, a probe finds it Unresponsive, and the task goes to the second worker.
\<close>

definition mapPhaseEvents :: "jobEvent list" where
  "mapPhaseEvents =
     [SchedulingPass 0, SchedulingPass 0,
      MapSucceeded 1 [(''b'', ''1''), (''c'', ''1'')],
      DeadlineExpired (MapTask, 0) 10,
      Probed ''w1'' False 11,
      SchedulingPass 12]"

definition lastMapEvent :: jobEvent where
  "lastMapEvent = MapSucceeded 0 [(''a'', ''1''), (''b'', ''1'')]"

definition reducePhaseEvents :: "jobEvent list" where
  "reducePhaseEvents =
     [SchedulingPass 13, ReduceSucceeded 0 ''a=1,c=1'',
      SchedulingPass 14, ReduceSucceeded 1 ''b=2'']"

definition jobAfter :: "jobEvent list \<Rightarrow> job" where
  "jobAfter evs = (case steps demoSettings demoJob evs of Inl e \<Rightarrow> demoJob | Inr j \<Rightarrow> j)"

text \<open>A registry whose only Map task is dispatched to worker w1 with deadline 10.\<close>

definition dispatchedTask :: task where
  "dispatchedTask =
     \<lparr>taskInput = FileRef ''split-0'', taskStatus = Dispatched, taskWorker = Some ''w1'',
      taskDeadline = Some 10, taskResult = None\<rparr>"

definition dispatchedRegistry :: registry where
  "dispatchedRegistry = \<lparr>mapTasks = [dispatchedTask], reduceTasks = []\<rparr>"

definition completedTask :: task where
  "completedTask =
     \<lparr>taskInput = FileRef ''split-0'', taskStatus = Completed, taskWorker = None,
      taskDeadline = None, taskResult = Some (MapOutput [(''a'', ''1'')])\<rparr>"

definition completedRegistry :: registry where
  "completedRegistry = \<lparr>mapTasks = [completedTask], reduceTasks = []\<rparr>"

definition pendingTask :: task where
  "pendingTask =
     \<lparr>taskInput = FileRef ''split-0'', taskStatus = Pending, taskWorker = None,
      taskDeadline = None, taskResult = None\<rparr>"

definition pendingRegistry :: registry where
  "pendingRegistry = \<lparr>mapTasks = [pendingTask], reduceTasks = []\<rparr>"

text \<open>The job after the first worker timed out and was found Unresponsive.\<close>

definition retryJob :: job where
  "retryJob =
     \<lparr>jobPhase = Mapping, jobRegistry = pendingRegistry,
      jobEndpoints = [\<lparr>address = ''w1'', health = Unresponsive, lastProbe = 0\<rparr>,
                      \<lparr>address = ''w2'', health = Alive, lastProbe = 11\<rparr>],
      jobAssembler = \<lparr>buffer = [], cached = None, finals = []\<rparr>\<rparr>"

subsection \<open>The entry point over the modelled core, with every worker Unresponsive\<close>

definition unresponsiveEndpoints :: "workerEndpoint list" where
  "unresponsiveEndpoints =
     [\<lparr>address = ''w1'', health = Unresponsive, lastProbe = 0\<rparr>,
      \<lparr>address = ''w2'', health = Unresponsive, lastProbe = 0\<rparr>]"

text \<open>
  The coordinator is the job of the modelled core with its settings; \<open>Done\<close> reads the
  phase, and each sleep sees one scheduling pass.
\<close>

definition coreWorld :: "(string \<times> string, settings \<times> job) world" where
  "coreWorld =
     \<lparr>plugin_Open = demoOpen,
      mr_MakeCoordinator =
        (\<lambda>files n. (\<lparr>hashKey = wordHash, nReduce = nat n, deadlineT = 10\<rparr>,
                     makeJob files unresponsiveEndpoints)),
      mr_Done = (\<lambda>c. jobPhase (snd c) = Done),
      mr_elapse =
        (\<lambda>c. case schedulingPass (fst c) (snd c) 0 of Inl e \<Rightarrow> c | Inr j \<Rightarrow> (fst c, j)),
      mr_Worker = (\<lambda>m r. True)\<rparr>"

subsection \<open>A world that shows what the coordinator was constructed from\<close>

text \<open>
  The coordinator is the pair of the arguments given to \<open>MakeCoordinator\<close>, no sleep
  changes it, and \<open>Done\<close> answers whether it equals the expected pair.
\<close>

definition probeWorld :: "string list \<times> int \<Rightarrow> (string \<times> string, string list \<times> int) world" where
  "probeWorld expected =
     \<lparr>plugin_Open = demoOpen,
      mr_MakeCoordinator = (\<lambda>files n. (files, n)),
      mr_Done = (\<lambda>c. c = expected),
      mr_elapse = (\<lambda>c. c),
      mr_Worker = (\<lambda>m r. True)\<rparr>"

section \<open>Properties of the entry point\<close>

subsection \<open>The polling loop\<close>

lemma pollDone_outcome: "snd (pollDone w n m) = Return () \<or> snd (pollDone w n m) = Polling"
  by (induction n arbitrary: m) (simp_all add: case_prod_beta)

lemma pollDone_no_constructor: "coordinatorCalls (fst (pollDone w n m)) = []"
  by (induction n arbitrary: m) (simp_all add: case_prod_beta)

lemma pollDone_Return:
  "pollDone w n m = (tr, Return u) \<Longrightarrow>
     \<exists>k<n. mr_Done w ((mr_elapse w ^^ k) m) \<and> doneAnswers tr = replicate k False @ [True]"
proof (induction n arbitrary: m tr)
  case 0
  then show ?case by simp
next
  case (Suc n)
  show ?case
  proof (cases "mr_Done w m")
    case True
    with Suc.prems have "doneAnswers tr = [True]" by auto
    with True show ?thesis by (intro exI[of _ 0]) simp
  next
    case False
    with Suc.prems obtain tr' where
      p: "pollDone w n (mr_elapse w m) = (tr', Return u)"
      and tr: "tr = DoneCall False # Sleep sleepDuration # tr'"
      by (auto split: prod.splits)
    from Suc.IH[OF p] obtain k where
      k: "k < n" "mr_Done w ((mr_elapse w ^^ k) (mr_elapse w m))"
         "doneAnswers tr' = replicate k False @ [True]"
      by blast
    show ?thesis
      using k tr by (intro exI[of _ "Suc k"]) (simp add: funpow_swap1)
  qed
qed

lemma pollDone_never:
  "(\<And>k. k < n \<Longrightarrow> \<not> mr_Done w ((mr_elapse w ^^ k) m)) \<Longrightarrow>
     snd (pollDone w n m) = Polling \<and> doneAnswers (fst (pollDone w n m)) = replicate n False"
proof (induction n arbitrary: m)
  case 0
  then show ?case by simp
next
  case (Suc n)
  have nd: "\<not> mr_Done w m" using Suc.prems[of 0] by simp
  have "\<And>k. k < n \<Longrightarrow> \<not> mr_Done w ((mr_elapse w ^^ k) (mr_elapse w m))"
    using Suc.prems[of "Suc _"] by (simp add: funpow_swap1)
  from Suc.IH[OF this] nd show ?case
    by (simp add: case_prod_beta)
qed

lemma pollDone_eventually:
  "mr_Done w ((mr_elapse w ^^ k) m) \<Longrightarrow> k < n \<Longrightarrow> snd (pollDone w n m) = Return ()"
proof (induction n arbitrary: m k)
  case 0
  then show ?case by simp
next
  case (Suc n)
  show ?case
  proof (cases "mr_Done w m")
    case True
    then show ?thesis by simp
  next
    case False
    with Suc.prems obtain k' where k': "k = Suc k'"
      by (cases k) auto
    with Suc.prems have "mr_Done w ((mr_elapse w ^^ k') (mr_elapse w m))" "k' < n"
      by (simp_all add: funpow_swap1)
    from Suc.IH[OF this] False show ?thesis
      by (simp add: case_prod_beta)
  qed
qed

lemma pollDone_answers:
  "k < length (doneAnswers (fst (pollDone w n m))) \<Longrightarrow>
     doneAnswers (fst (pollDone w n m)) ! k = mr_Done w ((mr_elapse w ^^ k) m)"
proof (induction n arbitrary: m k)
  case 0
  then show ?case by simp
next
  case (Suc n)
  show ?case
  proof (cases "mr_Done w m")
    case True
    with Suc.prems show ?thesis by simp
  next
    case False
    show ?thesis
    proof (cases k)
      case 0
      with False show ?thesis by (simp add: case_prod_beta)
    next
      case (Suc k')
      with Suc.prems False
      have "k' < length (doneAnswers (fst (pollDone w n (mr_elapse w m))))"
        by (simp add: case_prod_beta)
      from Suc.IH[OF this] Suc False show ?thesis
        by (simp add: case_prod_beta funpow_swap1)
    qed
  qed
qed

lemma pollDone_at_once:
  "mr_Done w m \<Longrightarrow> 0 < n \<Longrightarrow> pollDone w n m = ([DoneCall True], Return ())"
  by (cases n) simp_all

lemma pollDone_first_answer: "0 < n \<Longrightarrow> doneAnswers (fst (pollDone w n m)) \<noteq> []"
  by (cases n) (simp_all add: case_prod_beta)

lemma pollDone_returns_iff:
  "snd (pollDone w n m) = Return () \<longleftrightarrow> (\<exists>k<n. mr_Done w ((mr_elapse w ^^ k) m))"
proof
  assume s: "snd (pollDone w n m) = Return ()"
  have "pollDone w n m = (fst (pollDone w n m), Return ())"
    unfolding s[symmetric] by (rule prod.collapse[symmetric])
  from pollDone_Return[OF this] obtain k where
    "k < n" "mr_Done w ((mr_elapse w ^^ k) m)"
    by (elim exE conjE)
  then show "\<exists>k<n. mr_Done w ((mr_elapse w ^^ k) m)"
    by (intro exI[of _ k] conjI)
next
  assume "\<exists>k<n. mr_Done w ((mr_elapse w ^^ k) m)"
  then obtain k where "k < n" "mr_Done w ((mr_elapse w ^^ k) m)"
    by (elim exE conjE)
  then show "snd (pollDone w n m) = Return ()"
    by (intro pollDone_eventually[of w k m n])
qed

lemma doneAnswers_append: "doneAnswers (xs @ ys) = doneAnswers xs @ doneAnswers ys"
  by (induction xs rule: doneAnswers.induct) simp_all

lemma coordinatorCalls_append:
  "coordinatorCalls (xs @ ys) = coordinatorCalls xs @ coordinatorCalls ys"
  by (induction xs rule: coordinatorCalls.induct) simp_all

lemma runCoordinator_snd:
  "2 \<le> length args \<Longrightarrow>
     snd (runCoordinator w fuel args) =
       (if snd (pollDone w fuel (polled w args 0)) = Return () then Return None else Polling)"
  using pollDone_outcome[of w fuel "polled w args 0"]
  by (auto simp: runCoordinator_def polled_def Let_def split: prod.splits outcome.splits)

lemma runCoordinator_doneAnswers:
  "2 \<le> length args \<Longrightarrow>
     doneAnswers (fst (runCoordinator w fuel args)) =
       doneAnswers (fst (pollDone w fuel (polled w args 0)))"
  by (auto simp: runCoordinator_def polled_def Let_def doneAnswers_append
           split: prod.splits outcome.splits)

lemma runCoordinator_calls:
  "2 \<le> length args \<Longrightarrow>
     coordinatorCalls (fst (runCoordinator w fuel args)) = [(drop 2 args, 10)]"
  using pollDone_no_constructor[of w fuel "polled w args 0"]
  by (auto simp: runCoordinator_def polled_def Let_def coordinatorCalls_append
           split: prod.splits outcome.splits)

lemma runCoordinator_Return:
  assumes "runCoordinator w fuel args = (tr, Return e)"
  shows "e = None \<and> (\<exists>k<fuel. mr_Done w (polled w args k) \<and>
           doneAnswers tr = replicate k False @ [True])"
proof -
  from assms have len: "2 \<le> length args"
    by (auto simp: runCoordinator_def split: if_splits)
  from assms len obtain tr' u where
    p: "pollDone w fuel (polled w args 0) = (tr', Return u)"
    and tr: "tr = MakeCoordinatorCall (drop 2 args) 10 # tr' @ [Sleep sleepDuration]"
    and e: "e = None"
    by (auto simp: runCoordinator_def polled_def Let_def split: prod.splits outcome.splits)
  from pollDone_Return[OF p] obtain k where
    "k < fuel" "mr_Done w ((mr_elapse w ^^ k) (polled w args 0))"
    "doneAnswers tr' = replicate k False @ [True]"
    by blast
  then show ?thesis
    using e tr by (auto simp: polled_def doneAnswers_append)
qed

lemma demo_polled: "polled demoWorld coordinatorArgs k = k"
  by (induction k) (simp_all add: polled_def demoWorld_def)

lemma stalled_never: "\<not> mr_Done stalledWorld m"
  by (simp add: stalledWorld_def)

lemma schedulingPass_no_worker: "freeAlive j = [] \<Longrightarrow> schedulingPass cfg j now = Inr j"
  by (simp add: schedulingPass_def dispatchNext_def split: phase.splits list.splits)

lemma coreWorld_polled: "polled coreWorld args k = polled coreWorld args 0"
proof (induction k)
  case 0
  show ?case by simp
next
  case (Suc k)
  have free: "freeAlive (snd (polled coreWorld args 0)) = []"
    by (simp add: polled_def coreWorld_def freeAlive_def makeJob_def unresponsiveEndpoints_def)
  have "polled coreWorld args (Suc k) = mr_elapse coreWorld (polled coreWorld args k)"
    by (simp add: polled_def)
  also have "\<dots> = mr_elapse coreWorld (polled coreWorld args 0)"
    by (simp add: Suc.IH)
  also have "\<dots> = polled coreWorld args 0"
    using schedulingPass_no_worker[OF free] by (simp add: coreWorld_def)
  finally show ?case .
qed

lemma coreWorld_never_Done: "\<not> mr_Done coreWorld (polled coreWorld args k)"
proof -
  have "\<not> mr_Done coreWorld (polled coreWorld args 0)"
    by (simp add: polled_def coreWorld_def makeJob_def)
  then show ?thesis by (simp add: coreWorld_polled[of args k])
qed

subsection \<open>Loading the plugin\<close>

lemma loadPlugin_resolved:
  "plugin_Open w f = Inr p \<Longrightarrow> p ''Map'' = Inr (MapFunc m) \<Longrightarrow> p ''Reduce'' = Inr (ReduceFunc r) \<Longrightarrow>
     loadPlugin w f = Return (Some m, Some r, None)"
  by (simp add: loadPlugin_def lookupPluginFunc_def)

lemma loadPlugin_cannot_open:
  "plugin_Open w f = Inl e \<Longrightarrow>
     loadPlugin w f = Return (None, None, Some (cannotLoadPluginError f e))"
  by (simp add: loadPlugin_def)

lemma loadPlugin_missing_Map:
  "plugin_Open w f = Inr p \<Longrightarrow> p ''Map'' = Inl e \<Longrightarrow>
     loadPlugin w f = Return (None, None, Some (cannotFindError ''Map'' e))"
  by (simp add: loadPlugin_def lookupPluginFunc_def)

lemma loadPlugin_missing_Reduce:
  "plugin_Open w f = Inr p \<Longrightarrow> p ''Map'' = Inr s \<Longrightarrow> p ''Reduce'' = Inl e \<Longrightarrow>
     loadPlugin w f = Return (None, None, Some (cannotFindError ''Reduce'' e))"
  by (simp add: loadPlugin_def lookupPluginFunc_def)

lemma loadPlugin_missing:
  assumes "plugin_Open w f = Inr p" "isl (p ''Map'') \<or> isl (p ''Reduce'')"
  shows "\<exists>err. loadPlugin w f = Return (None, None, Some err)"
proof (cases "p ''Map''")
  case (Inl e)
  with assms(1) show ?thesis by (simp add: loadPlugin_missing_Map)
next
  case (Inr s)
  with assms(2) obtain e where "p ''Reduce'' = Inl e"
    by (cases "p ''Reduce''") auto
  with assms(1) Inr show ?thesis by (simp add: loadPlugin_missing_Reduce)
qed

lemma runWorker_error:
  "loadPlugin w f = Return (m, r, Some err) \<Longrightarrow> 2 < length args \<Longrightarrow> args ! 2 = f \<Longrightarrow>
     runWorker w args = ([], Return (Some err))"
  by (simp add: runWorker_def)

lemma runWorker_panic:
  "loadPlugin w f = Panic msg \<Longrightarrow> 2 < length args \<Longrightarrow> args ! 2 = f \<Longrightarrow>
     runWorker w args = ([], Panic msg)"
  by (simp add: runWorker_def)

lemma usage_not_invalid: "Error usageError \<noteq> Error (invalidArgumentError a)"
  by (simp add: usageError_def invalidArgumentError_def)

lemma runWorker_cases:
  "2 < length args \<Longrightarrow>
     (\<exists>e. snd (runWorker w args) = Return (Some e)) =
     (\<exists>m r e. loadPlugin w (args ! 2) = Return (m, r, Some e))"
  by (cases "loadPlugin w (args ! 2)") (auto simp: runWorker_def split: if_splits)

lemma runWorker_error_trace:
  "snd (runWorker w args) = Return (Some e) \<Longrightarrow> fst (runWorker w args) = []"
  by (cases "loadPlugin w (args ! 2)") (auto simp: runWorker_def split: if_splits)

section \<open>Properties of the modelled coordinator core\<close>

subsection \<open>Task Registry\<close>

lemma tasksOf_setTasks: "tasksOf (setTasks reg k ts) k' = (if k' = k then ts else tasksOf reg k')"
  by (cases k; cases k') simp_all

lemma lookupTask_updateTask:
  "lookupTask (updateTask reg tid t) tid' =
     (if tid' = tid \<and> lookupTask reg tid \<noteq> None then Some t else lookupTask reg tid')"
  by (cases tid; cases tid') (auto simp: tasksOf_setTasks)

lemma tasksOf_updateTask:
  "tasksOf (updateTask reg tid t) k =
     (if k = fst tid then (tasksOf reg k)[snd tid := t] else tasksOf reg k)"
  by (cases tid) (auto simp: tasksOf_setTasks)

lemma lookupTask_mem: "lookupTask reg tid = Some t \<Longrightarrow> t \<in> set (tasksOf reg (fst tid))"
  by (cases tid) (auto split: if_splits)

lemma markCompleted_noop:
  "lookupTask reg tid = Some t \<Longrightarrow> taskStatus t = Completed \<Longrightarrow> markCompleted reg tid r = Inr reg"
  by (simp add: markCompleted_def)

lemma applyOp_keeps_Completed:
  assumes "lookupTask reg tid = Some t" "taskStatus t = Completed" "applyOp reg op = Inr reg'"
  shows "lookupTask reg' tid = Some t"
proof (cases op)
  case (MarkDispatched tid' w d)
  with assms show ?thesis
    by (auto simp: markDispatched_def lookupTask_updateTask split: option.splits if_splits)
next
  case (MarkCompleted tid' r)
  with assms show ?thesis
    by (auto simp: markCompleted_def lookupTask_updateTask split: option.splits if_splits)
next
  case (MarkTimedOut tid' d)
  with assms show ?thesis
    by (auto simp: markTimedOut_def lookupTask_updateTask split: option.splits if_splits)
qed

lemma applyOps_keeps_Completed:
  "lookupTask reg tid = Some t \<Longrightarrow> taskStatus t = Completed \<Longrightarrow> applyOps reg ops = Inr reg' \<Longrightarrow>
     lookupTask reg' tid = Some t"
proof (induction ops arbitrary: reg)
  case Nil
  then show ?case by simp
next
  case (Cons op ops)
  from Cons.prems(3) obtain reg1 where
    s: "applyOp reg op = Inr reg1" and r: "applyOps reg1 ops = Inr reg'"
    by (auto split: sum.splits)
  from applyOp_keeps_Completed[OF Cons.prems(1,2) s]
  have "lookupTask reg1 tid = Some t" .
  from Cons.IH[OF this Cons.prems(2) r] show ?case .
qed

lemma markCompleted_stores:
  "lookupTask reg tid = Some t \<Longrightarrow> taskStatus t = Dispatched \<Longrightarrow>
     \<exists>reg1. markCompleted reg tid r = Inr reg1 \<and>
       lookupTask reg1 tid = Some (t\<lparr>taskStatus := Completed, taskWorker := None,
                                      taskDeadline := None, taskResult := Some r\<rparr>)"
  by (simp add: markCompleted_def lookupTask_updateTask)

lemma onResponse_discards:
  "lookupTask (jobRegistry j) tid = Some t \<Longrightarrow> taskStatus t = Completed \<Longrightarrow>
     onResponse cfg j tid r = Inr j"
  by (simp add: onResponse_def)

lemma allPending_mem:
  "lookupTask reg (k, i) = Some t \<Longrightarrow> taskStatus t = Pending \<Longrightarrow> (k, i) \<in> set (allPending reg k)"
  by (auto simp: allPending_def split: if_splits)

lemma markDispatched_Pending:
  "lookupTask reg tid = Some t \<Longrightarrow> taskStatus t = Pending \<Longrightarrow>
     \<exists>reg'. markDispatched reg tid w d = Inr reg' \<and>
       lookupTask reg' tid =
         Some (t\<lparr>taskStatus := Dispatched, taskWorker := Some w, taskDeadline := Some d\<rparr>)"
  by (simp add: markDispatched_def lookupTask_updateTask)

lemma markTimedOut_expired:
  "lookupTask reg tid = Some t \<Longrightarrow> taskStatus t = Dispatched \<Longrightarrow> taskDeadline t = Some d \<Longrightarrow>
     \<exists>reg'. markTimedOut reg tid d = Inr reg' \<and>
       lookupTask reg' tid = Some (t\<lparr>taskStatus := Pending, taskWorker := None, taskDeadline := None\<rparr>)"
  by (simp add: markTimedOut_def lookupTask_updateTask)

lemma markTimedOut_guard:
  "lookupTask reg tid = Some t \<Longrightarrow> taskStatus t \<noteq> Dispatched \<or> taskDeadline t \<noteq> Some d \<Longrightarrow>
     markTimedOut reg tid d = Inr reg"
  by (auto simp: markTimedOut_def)

subsection \<open>Partitioning and grouping\<close>














subsection \<open>Phases\<close>

lemma allCompleted_lookup:
  "allCompleted reg k \<Longrightarrow> lookupTask reg (k, i) = Some t \<Longrightarrow> taskStatus t = Completed"
  using lookupTask_mem[of reg "(k, i)" t] by (simp add: allCompleted_def list_all_iff)

lemma applyOp_shape:
  assumes "applyOp reg op = Inr reg'"
  shows "reg' = reg \<or>
         (\<exists>tid t t'. lookupTask reg tid = Some t \<and> taskStatus t \<noteq> Completed \<and>
                      reg' = updateTask reg tid t')"
proof (cases op)
  case (MarkDispatched tid w d)
  with assms obtain t where
    "lookupTask reg tid = Some t" "taskStatus t = Pending"
    "reg' = updateTask reg tid
              (t\<lparr>taskStatus := Dispatched, taskWorker := Some w, taskDeadline := Some d\<rparr>)"
    by (auto simp: markDispatched_def simp del: lookupTask.simps updateTask.simps
             split: option.splits if_splits)
  then have "\<exists>tid t t'. lookupTask reg tid = Some t \<and> taskStatus t \<noteq> Completed \<and>
                      reg' = updateTask reg tid t'"
    by (intro exI[of _ tid] exI[of _ t] exI) simp
  then show ?thesis ..
next
  case (MarkCompleted tid r)
  with assms consider "reg' = reg"
    | t where "lookupTask reg tid = Some t" "taskStatus t = Dispatched"
        "reg' = updateTask reg tid
                  (t\<lparr>taskStatus := Completed, taskWorker := None, taskDeadline := None,
                     taskResult := Some r\<rparr>)"
    by (auto simp: markCompleted_def simp del: lookupTask.simps updateTask.simps
             split: option.splits if_splits)
  then show ?thesis
  proof cases
    case 1
    then show ?thesis ..
  next
    case 2
    then have "\<exists>tid t t'. lookupTask reg tid = Some t \<and> taskStatus t \<noteq> Completed \<and>
                      reg' = updateTask reg tid t'"
      by (intro exI[of _ tid] exI[of _ t] exI) simp
    then show ?thesis ..
  qed
next
  case (MarkTimedOut tid d)
  with assms consider "reg' = reg"
    | t where "lookupTask reg tid = Some t" "taskStatus t = Dispatched"
        "reg' = updateTask reg tid
                  (t\<lparr>taskStatus := Pending, taskWorker := None, taskDeadline := None\<rparr>)"
    by (auto simp: markTimedOut_def simp del: lookupTask.simps updateTask.simps
             split: option.splits if_splits)
  then show ?thesis
  proof cases
    case 1
    then show ?thesis ..
  next
    case 2
    then have "\<exists>tid t t'. lookupTask reg tid = Some t \<and> taskStatus t \<noteq> Completed \<and>
                      reg' = updateTask reg tid t'"
      by (intro exI[of _ tid] exI[of _ t] exI) simp
    then show ?thesis ..
  qed
qed

lemma applyOp_allCompleted:
  assumes "applyOp reg op = Inr reg'" "allCompleted reg k"
  shows "tasksOf reg' k = tasksOf reg k"
proof -
  from applyOp_shape[OF assms(1)] show ?thesis
  proof
    assume "reg' = reg" then show ?thesis by simp
  next
    assume "\<exists>tid t t'. lookupTask reg tid = Some t \<and> taskStatus t \<noteq> Completed \<and>
                      reg' = updateTask reg tid t'"
    then obtain tid t t' where
      l: "lookupTask reg tid = Some t" and n: "taskStatus t \<noteq> Completed"
      and r: "reg' = updateTask reg tid t'"
      by blast
    have "fst tid \<noteq> k"
      using allCompleted_lookup[OF assms(2), of "snd tid" t] l n by (cases tid) auto
    with r show ?thesis by (simp add: tasksOf_updateTask)
  qed
qed

lemma applyOp_empty:
  assumes "applyOp reg op = Inr reg'" "tasksOf reg k = []"
  shows "tasksOf reg' k = []"
proof -
  from applyOp_shape[OF assms(1)] show ?thesis
  proof
    assume "reg' = reg" with assms(2) show ?thesis by simp
  next
    assume "\<exists>tid t t'. lookupTask reg tid = Some t \<and> taskStatus t \<noteq> Completed \<and>
                      reg' = updateTask reg tid t'"
    then obtain tid t t' where
      l: "lookupTask reg tid = Some t" and r: "reg' = updateTask reg tid t'"
      by blast
    from lookupTask_mem[OF l] have "tasksOf reg (fst tid) \<noteq> []" by auto
    with assms(2) have "fst tid \<noteq> k" by auto
    with assms(2) r show ?thesis by (simp add: tasksOf_updateTask)
  qed
qed

lemma dispatchNext_shape:
  assumes "dispatchNext cfg j k now = Inr j'"
  shows "j' = j \<or> (\<exists>op reg'. applyOp (jobRegistry j) op = Inr reg' \<and> j' = j\<lparr>jobRegistry := reg'\<rparr>)"
proof (cases "allPending (jobRegistry j) k")
  case Nil
  with assms show ?thesis by (simp add: dispatchNext_def)
next
  case (Cons tid rest)
  show ?thesis
  proof (cases "freeAlive j")
    case Nil
    with Cons assms show ?thesis by (simp add: dispatchNext_def)
  next
    case (Cons w ws)
    with \<open>allPending (jobRegistry j) k = tid # rest\<close> assms obtain reg' where
      "applyOp (jobRegistry j) (MarkDispatched tid w (now + deadlineT cfg)) = Inr reg'"
      "j' = j\<lparr>jobRegistry := reg'\<rparr>"
      by (auto simp: dispatchNext_def split: sum.splits)
    then show ?thesis by blast
  qed
qed

lemma onResponse_shape:
  assumes "onResponse cfg j tid r = Inr j'"
  shows "j' = j \<or>
         (\<exists>op reg' a. applyOp (jobRegistry j) op = Inr reg' \<and>
            j' = advancePhase cfg (j\<lparr>jobRegistry := reg', jobAssembler := a\<rparr>))"
proof (cases "lookupTask (jobRegistry j) tid")
  case None
  with assms show ?thesis by (simp add: onResponse_def)
next
  case (Some t)
  show ?thesis
  proof (cases "taskStatus t = Dispatched")
    case False
    with Some assms show ?thesis by (simp add: onResponse_def)
  next
    case True
    with Some assms obtain reg' a where
      "applyOp (jobRegistry j) (MarkCompleted tid r) = Inr reg'"
      "j' = advancePhase cfg (j\<lparr>jobRegistry := reg', jobAssembler := a\<rparr>)"
      by (auto simp: onResponse_def split: sum.splits)
    then show ?thesis by blast
  qed
qed

lemma step_shape:
  assumes "step cfg j ev = Inr j'"
  shows "\<exists>jm. jobPhase jm = jobPhase j
           \<and> (jobRegistry jm = jobRegistry j
               \<or> (\<exists>op. applyOp (jobRegistry j) op = Inr (jobRegistry jm)))
           \<and> (j' = jm \<or> j' = advancePhase cfg jm)"
proof (cases ev)
  case (SchedulingPass now)
  with assms obtain k where "dispatchNext cfg j k now = Inr j' \<or> j' = j"
    by (auto simp: schedulingPass_def split: phase.splits)
  then show ?thesis
    using dispatchNext_shape[of cfg j k now j']
    by (intro exI[of _ j']) auto
next
  case (DispatchNext k now)
  with assms show ?thesis
    using dispatchNext_shape[of cfg j k now j']
    by (intro exI[of _ j']) auto
next
  case (MapSucceeded i recs)
  with assms have "onResponse cfg j (MapTask, i) (MapOutput recs) = Inr j'" by simp
  from onResponse_shape[OF this] show ?thesis
  proof
    assume "j' = j" then show ?thesis by (intro exI[of _ j]) simp
  next
    assume "\<exists>op reg' a. applyOp (jobRegistry j) op = Inr reg' \<and>
            j' = advancePhase cfg (j\<lparr>jobRegistry := reg', jobAssembler := a\<rparr>)"
    then obtain op reg' a where
      "applyOp (jobRegistry j) op = Inr reg'"
      "j' = advancePhase cfg (j\<lparr>jobRegistry := reg', jobAssembler := a\<rparr>)"
      by blast
    then show ?thesis
      by (intro exI[of _ "j\<lparr>jobRegistry := reg', jobAssembler := a\<rparr>"]) auto
  qed
next
  case (ReduceSucceeded i v)
  with assms have "onResponse cfg j (ReduceTask, i) (ReduceOutput v) = Inr j'" by simp
  from onResponse_shape[OF this] show ?thesis
  proof
    assume "j' = j" then show ?thesis by (intro exI[of _ j]) simp
  next
    assume "\<exists>op reg' a. applyOp (jobRegistry j) op = Inr reg' \<and>
            j' = advancePhase cfg (j\<lparr>jobRegistry := reg', jobAssembler := a\<rparr>)"
    then obtain op reg' a where
      "applyOp (jobRegistry j) op = Inr reg'"
      "j' = advancePhase cfg (j\<lparr>jobRegistry := reg', jobAssembler := a\<rparr>)"
      by blast
    then show ?thesis
      by (intro exI[of _ "j\<lparr>jobRegistry := reg', jobAssembler := a\<rparr>"]) auto
  qed
next
  case (DeadlineExpired tid d)
  with assms obtain reg' where
    "applyOp (jobRegistry j) (MarkTimedOut tid d) = Inr reg'" "j' = j\<lparr>jobRegistry := reg'\<rparr>"
    by (auto split: sum.splits)
  then show ?thesis by (intro exI[of _ j']) (auto simp del: applyOp.simps)
next
  case (Probed a ok now)
  with assms show ?thesis by (intro exI[of _ j']) auto
qed

lemma phaseInvariant_mid:
  assumes "phaseInvariant j" "jobPhase jm = jobPhase j"
    and "jobRegistry jm = jobRegistry j \<or> (\<exists>op. applyOp (jobRegistry j) op = Inr (jobRegistry jm))"
  shows "phaseInvariant jm"
    and "allCompleted (jobRegistry j) MapTask \<Longrightarrow> allCompleted (jobRegistry jm) MapTask"
proof -
  have keep: "allCompleted (jobRegistry j) k \<Longrightarrow> allCompleted (jobRegistry jm) k" for k
    using assms(3) applyOp_allCompleted[of "jobRegistry j" _ "jobRegistry jm" k]
    by (auto simp: allCompleted_def)
  have empty: "tasksOf (jobRegistry j) k = [] \<Longrightarrow> tasksOf (jobRegistry jm) k = []" for k
    using assms(3) applyOp_empty[of "jobRegistry j" _ "jobRegistry jm" k] by auto
  show "phaseInvariant jm"
    using assms(1,2) keep[of MapTask] keep[of ReduceTask] empty[of ReduceTask]
    by (auto simp: phaseInvariant_def split: phase.splits)
  show "allCompleted (jobRegistry j) MapTask \<Longrightarrow> allCompleted (jobRegistry jm) MapTask"
    by (rule keep)
qed

lemma advancePhase_invariant: "phaseInvariant j \<Longrightarrow> phaseInvariant (advancePhase cfg j)"
  by (auto simp: phaseInvariant_def advancePhase_def allCompleted_def
           split: phase.splits prod.splits)

lemma advancePhase_rank: "phaseRank (jobPhase j) \<le> phaseRank (jobPhase (advancePhase cfg j))"
  by (auto simp: advancePhase_def split: phase.splits prod.splits)

lemma advancePhase_mapTasks:
  "mapTasks (jobRegistry (advancePhase cfg j)) = mapTasks (jobRegistry j)"
  by (auto simp: advancePhase_def split: phase.splits prod.splits)

lemma advancePhase_leaves_Mapping:
  "jobPhase j = Mapping \<Longrightarrow> jobPhase (advancePhase cfg j) \<noteq> Mapping \<Longrightarrow>
     jobPhase (advancePhase cfg j) = Reducing
     \<and> allCompleted (jobRegistry j) MapTask
     \<and> list_all (\<lambda>t. taskStatus t = Pending) (reduceTasks (jobRegistry (advancePhase cfg j)))"
  by (auto simp: advancePhase_def newTask_def list_all_iff split: if_splits prod.splits)

lemma advancePhase_reaches_Done:
  "jobPhase j \<noteq> Done \<Longrightarrow> jobPhase (advancePhase cfg j) = Done \<Longrightarrow>
     jobPhase j = Reducing \<and> allCompleted (jobRegistry (advancePhase cfg j)) ReduceTask"
  by (auto simp: advancePhase_def split: phase.splits if_splits prod.splits)

lemma step_invariant:
  assumes "step cfg j ev = Inr j'" "phaseInvariant j"
  shows "phaseInvariant j'"
proof -
  from step_shape[OF assms(1)] obtain jm where
    ph: "jobPhase jm = jobPhase j"
    and rg: "jobRegistry jm = jobRegistry j
               \<or> (\<exists>op. applyOp (jobRegistry j) op = Inr (jobRegistry jm))"
    and j': "j' = jm \<or> j' = advancePhase cfg jm"
    by blast
  from phaseInvariant_mid(1)[OF assms(2) ph rg] have "phaseInvariant jm" .
  with j' show ?thesis by (auto simp: advancePhase_invariant)
qed

lemma steps_invariant:
  "steps cfg j evs = Inr j' \<Longrightarrow> phaseInvariant j \<Longrightarrow> phaseInvariant j'"
proof (induction evs arbitrary: j)
  case Nil
  then show ?case by simp
next
  case (Cons ev evs)
  from Cons.prems(1) obtain j1 where
    s: "step cfg j ev = Inr j1" and r: "steps cfg j1 evs = Inr j'"
    by (auto split: sum.splits)
  from Cons.IH[OF r step_invariant[OF s Cons.prems(2)]] show ?case .
qed

lemma makeJob_invariant: "phaseInvariant (makeJob splits eps)"
  by (simp add: phaseInvariant_def makeJob_def)

lemma step_phase:
  assumes "step cfg j ev = Inr j'"
  shows "phaseRank (jobPhase j) \<le> phaseRank (jobPhase j')"
    and "jobPhase j = Mapping \<Longrightarrow> jobPhase j' \<noteq> Mapping \<Longrightarrow>
           jobPhase j' = Reducing \<and> allCompleted (jobRegistry j') MapTask
           \<and> list_all (\<lambda>t. taskStatus t = Pending) (reduceTasks (jobRegistry j'))"
    and "jobPhase j \<noteq> Done \<Longrightarrow> jobPhase j' = Done \<Longrightarrow>
           jobPhase j = Reducing \<and> allCompleted (jobRegistry j') ReduceTask"
proof -
  from step_shape[OF assms(1)] obtain jm where
    ph: "jobPhase jm = jobPhase j"
    and j': "j' = jm \<or> j' = advancePhase cfg jm"
    by blast
  show "phaseRank (jobPhase j) \<le> phaseRank (jobPhase j')"
    using ph j' advancePhase_rank[of jm cfg] by auto
  show "jobPhase j' = Reducing \<and> allCompleted (jobRegistry j') MapTask
           \<and> list_all (\<lambda>t. taskStatus t = Pending) (reduceTasks (jobRegistry j'))"
    if "jobPhase j = Mapping" "jobPhase j' \<noteq> Mapping"
    using that ph j' advancePhase_leaves_Mapping[of jm cfg] advancePhase_mapTasks[of cfg jm]
    by (auto simp: allCompleted_def)
  show "jobPhase j = Reducing \<and> allCompleted (jobRegistry j') ReduceTask"
    if "jobPhase j \<noteq> Done" "jobPhase j' = Done"
    using that ph j' advancePhase_reaches_Done[of jm cfg] by auto
qed

section \<open>The claims\<close>

text \<open>
  Claim C1 (ordering invariant). Along every execution of a job, a ReduceTask that is
  not Pending after a step exists only when every MapTask was Completed before the step
  and is Completed after it; the phase never regresses; it leaves Mapping only for
  Reducing and only with every MapTask Completed; it reaches Done only from Reducing and
  only with every ReduceTask Completed. While the phase is Mapping there is no
  ReduceTask at all.
\<close>

theorem ordering_invariant:
  assumes "steps cfg (makeJob splits eps) evs = Inr j" "step cfg j ev = Inr j'"
  shows "(\<forall>i t'. lookupTask (jobRegistry j') (ReduceTask, i) = Some t' \<and> taskStatus t' \<noteq> Pending \<longrightarrow>
            allCompleted (jobRegistry j) MapTask \<and> allCompleted (jobRegistry j') MapTask)
    \<and> phaseRank (jobPhase j) \<le> phaseRank (jobPhase j')
    \<and> (jobPhase j = Mapping \<and> jobPhase j' \<noteq> Mapping \<longrightarrow>
         jobPhase j' = Reducing \<and> allCompleted (jobRegistry j') MapTask)
    \<and> (jobPhase j \<noteq> Done \<and> jobPhase j' = Done \<longrightarrow>
         jobPhase j = Reducing \<and> allCompleted (jobRegistry j') ReduceTask)
    \<and> (jobPhase j' = Mapping \<longrightarrow> reduceTasks (jobRegistry j') = [])
    \<and> (jobPhase j' \<noteq> Mapping \<longrightarrow> allCompleted (jobRegistry j') MapTask)
    \<and> (jobPhase j' = Done \<longrightarrow> allCompleted (jobRegistry j') ReduceTask)"
proof -
  have inv: "phaseInvariant j"
    using steps_invariant[OF assms(1) makeJob_invariant] .
  have inv': "phaseInvariant j'"
    using step_invariant[OF assms(2) inv] .
  have red: "allCompleted (jobRegistry j) MapTask \<and> allCompleted (jobRegistry j') MapTask"
    if l: "lookupTask (jobRegistry j') (ReduceTask, i) = Some t'" and n: "taskStatus t' \<noteq> Pending"
    for i t'
  proof -
    from l have ne: "reduceTasks (jobRegistry j') \<noteq> []" by (auto split: if_splits)
    with inv' have after: "jobPhase j' \<noteq> Mapping" "allCompleted (jobRegistry j') MapTask"
      by (auto simp: phaseInvariant_def split: phase.splits)
    have "jobPhase j \<noteq> Mapping"
    proof
      assume m: "jobPhase j = Mapping"
      from step_phase(2)[OF assms(2) m after(1)]
      have "list_all (\<lambda>t. taskStatus t = Pending) (reduceTasks (jobRegistry j'))" by simp
      with l n show False by (auto simp: list_all_length split: if_splits)
    qed
    with inv have "allCompleted (jobRegistry j) MapTask"
      by (auto simp: phaseInvariant_def split: phase.splits)
    with after show ?thesis by simp
  qed
  have states: "(jobPhase j' = Mapping \<longrightarrow> reduceTasks (jobRegistry j') = [])
    \<and> (jobPhase j' \<noteq> Mapping \<longrightarrow> allCompleted (jobRegistry j') MapTask)
    \<and> (jobPhase j' = Done \<longrightarrow> allCompleted (jobRegistry j') ReduceTask)"
    using inv' by (auto simp: phaseInvariant_def split: phase.splits)
  from red step_phase[OF assms(2)] states show ?thesis
    by blast
qed

text \<open>
  The example job: the step that completes the last Map task moves the phase from
  Mapping to Reducing, with every MapTask Completed; only the next scheduling pass takes
  a ReduceTask out of Pending.
\<close>

theorem ordering_invariant_witness:
  "steps demoSettings (makeJob [''split-0'', ''split-1''] demoEndpoints) mapPhaseEvents =
     Inr (jobAfter mapPhaseEvents)
   \<and> step demoSettings (jobAfter mapPhaseEvents) lastMapEvent =
       Inr (jobAfter (mapPhaseEvents @ [lastMapEvent]))
   \<and> jobPhase (jobAfter mapPhaseEvents) = Mapping
   \<and> reduceTasks (jobRegistry (jobAfter mapPhaseEvents)) = []
   \<and> jobPhase (jobAfter (mapPhaseEvents @ [lastMapEvent])) = Reducing
   \<and> allCompleted (jobRegistry (jobAfter (mapPhaseEvents @ [lastMapEvent]))) MapTask
   \<and> step demoSettings (jobAfter (mapPhaseEvents @ [lastMapEvent])) (SchedulingPass 13) =
       Inr (jobAfter (mapPhaseEvents @ [lastMapEvent, SchedulingPass 13]))
   \<and> map taskStatus
        (reduceTasks (jobRegistry (jobAfter (mapPhaseEvents @ [lastMapEvent, SchedulingPass 13])))) =
       [Dispatched, Pending]"
proof -
  let ?mapping = "jobAfter mapPhaseEvents"
  let ?reducing = "jobAfter (mapPhaseEvents @ [lastMapEvent])"
  let ?dispatched = "jobAfter (mapPhaseEvents @ [lastMapEvent, SchedulingPass 13])"
  have h1: "steps demoSettings (makeJob [''split-0'', ''split-1''] demoEndpoints) mapPhaseEvents =
              Inr ?mapping"
    by code_simp
  have h2: "step demoSettings ?mapping lastMapEvent = Inr ?reducing"
    by code_simp
  have h3: "steps demoSettings (makeJob [''split-0'', ''split-1''] demoEndpoints)
              (mapPhaseEvents @ [lastMapEvent]) = Inr ?reducing"
    by code_simp
  have h4: "step demoSettings ?reducing (SchedulingPass 13) = Inr ?dispatched"
    by code_simp
  have p1: "jobPhase ?mapping = Mapping"
    by code_simp
  have p2: "jobPhase ?reducing = Reducing"
    by code_simp
  have r: "reduceTasks (jobRegistry ?mapping) = []"
    by code_simp
  have d: "map taskStatus (reduceTasks (jobRegistry ?dispatched)) = [Dispatched, Pending]"
    by code_simp
  from d obtain t where
    t: "lookupTask (jobRegistry ?dispatched) (ReduceTask, 0) = Some t" "taskStatus t \<noteq> Pending"
    by (cases "reduceTasks (jobRegistry ?dispatched)") auto
  from ordering_invariant[OF h1 h2] p1 p2
  have c1: "allCompleted (jobRegistry ?reducing) MapTask"
    by simp
  from ordering_invariant[OF h3 h4] t
  have c2: "allCompleted (jobRegistry ?reducing) MapTask"
    by blast
  from h1 h2 h4 p1 p2 r d c1 c2 show ?thesis by simp
qed

text \<open>
  Claim C2 (at most one authoritative result). Completing a Dispatched task stores the
  result. Once a call of markCompleted has left the task Completed, then after any
  further sequence of registry operations a call of markCompleted for the same
  identifier returns the registry unchanged, without an error, the stored task
  (and so its result) is the same, and a late response leaves the whole job state,
  final results included, as it is.
\<close>

theorem markCompleted_at_most_once:
  "(lookupTask reg tid = Some t \<and> taskStatus t = Dispatched \<longrightarrow>
      (\<exists>reg1 t1. markCompleted reg tid r = Inr reg1 \<and> lookupTask reg1 tid = Some t1
         \<and> taskStatus t1 = Completed \<and> taskResult t1 = Some r))
   \<and> (markCompleted reg tid r = Inr reg1 \<and> lookupTask reg1 tid = Some t1
        \<and> taskStatus t1 = Completed \<and> applyOps reg1 ops = Inr reg2 \<longrightarrow>
      markCompleted reg2 tid r' = Inr reg2 \<and> lookupTask reg2 tid = Some t1
      \<and> (jobRegistry j = reg2 \<longrightarrow> onResponse cfg j tid r' = Inr j))"
proof (intro conjI impI)
  assume "lookupTask reg tid = Some t \<and> taskStatus t = Dispatched"
  then show "\<exists>reg1 t1. markCompleted reg tid r = Inr reg1 \<and> lookupTask reg1 tid = Some t1
         \<and> taskStatus t1 = Completed \<and> taskResult t1 = Some r"
    using markCompleted_stores[of reg tid t r] by auto
next
  assume a: "markCompleted reg tid r = Inr reg1 \<and> lookupTask reg1 tid = Some t1
        \<and> taskStatus t1 = Completed \<and> applyOps reg1 ops = Inr reg2"
  then have l: "lookupTask reg2 tid = Some t1"
    using applyOps_keeps_Completed by blast
  from a have c: "taskStatus t1 = Completed" by simp
  show "markCompleted reg2 tid r' = Inr reg2" using l c by (rule markCompleted_noop)
  show "lookupTask reg2 tid = Some t1" by (rule l)
  show "onResponse cfg j tid r' = Inr j" if "jobRegistry j = reg2"
    using that l c by (simp add: onResponse_discards)
qed

text \<open>
  A task dispatched to w1 is completed; a later timeout and two later responses change
  nothing.
\<close>

theorem markCompleted_at_most_once_witness:
  "lookupTask dispatchedRegistry (MapTask, 0) = Some dispatchedTask
   \<and> taskStatus dispatchedTask = Dispatched
   \<and> markCompleted dispatchedRegistry (MapTask, 0) (MapOutput [(''a'', ''1'')]) = Inr completedRegistry
   \<and> lookupTask completedRegistry (MapTask, 0) = Some completedTask
   \<and> taskStatus completedTask = Completed
   \<and> applyOps completedRegistry
        [MarkTimedOut (MapTask, 0) 10, MarkCompleted (MapTask, 0) (MapOutput [])] =
       Inr completedRegistry
   \<and> markCompleted completedRegistry (MapTask, 0) (MapOutput [(''z'', ''9'')]) = Inr completedRegistry
   \<and> onResponse demoSettings (demoJob\<lparr>jobRegistry := completedRegistry\<rparr>) (MapTask, 0)
        (MapOutput [(''z'', ''9'')]) = Inr (demoJob\<lparr>jobRegistry := completedRegistry\<rparr>)"
proof -
  have h1: "lookupTask dispatchedRegistry (MapTask, 0) = Some dispatchedTask"
    by (simp add: dispatchedRegistry_def)
  have h2: "taskStatus dispatchedTask = Dispatched"
    by (simp add: dispatchedTask_def)
  have h3: "markCompleted dispatchedRegistry (MapTask, 0) (MapOutput [(''a'', ''1'')]) =
              Inr completedRegistry"
    by (simp add: markCompleted_def dispatchedRegistry_def dispatchedTask_def
          completedRegistry_def completedTask_def)
  have h4: "lookupTask completedRegistry (MapTask, 0) = Some completedTask"
    by (simp add: completedRegistry_def)
  have h5: "taskStatus completedTask = Completed"
    by (simp add: completedTask_def)
  have h6: "applyOps completedRegistry
              [MarkTimedOut (MapTask, 0) 10, MarkCompleted (MapTask, 0) (MapOutput [])] =
            Inr completedRegistry"
    by (simp add: markTimedOut_def markCompleted_def completedRegistry_def completedTask_def)
  have h7: "jobRegistry (demoJob\<lparr>jobRegistry := completedRegistry\<rparr>) = completedRegistry"
    by simp
  show ?thesis
    using h1 h2 h3 h4 h5 h6 h7
      markCompleted_at_most_once[of dispatchedRegistry "(MapTask, 0)" dispatchedTask
        "MapOutput [(''a'', ''1'')]" completedRegistry completedTask
        "[MarkTimedOut (MapTask, 0) 10, MarkCompleted (MapTask, 0) (MapOutput [])]"
        completedRegistry "MapOutput [(''z'', ''9'')]"
        "demoJob\<lparr>jobRegistry := completedRegistry\<rparr>" demoSettings]
    by simp
qed



text \<open>
  Claim C4 (timeout reassignment). markTimedOut for a task that is Dispatched with the
  deadline that expired makes it Pending, with no worker and no deadline; it is then
  among allPending, markDispatched succeeds for it with any worker, and a dispatchNext
  that finds it first and finds a free Alive endpoint dispatches it there. If the task
  is not Dispatched (a result arrived first) or is Dispatched for another deadline,
  markTimedOut changes nothing.
\<close>

theorem markTimedOut_returns_to_Pending:
  "(lookupTask reg tid = Some t \<and> taskStatus t = Dispatched \<and> taskDeadline t = Some d \<longrightarrow>
      (\<exists>reg'. markTimedOut reg tid d = Inr reg'
         \<and> lookupTask reg' tid =
             Some (t\<lparr>taskStatus := Pending, taskWorker := None, taskDeadline := None\<rparr>)
         \<and> tid \<in> set (allPending reg' (fst tid))
         \<and> (\<forall>w' d'. \<exists>reg''. markDispatched reg' tid w' d' = Inr reg''
              \<and> lookupTask reg'' tid =
                  Some (t\<lparr>taskStatus := Dispatched, taskWorker := Some w', taskDeadline := Some d'\<rparr>))
         \<and> (\<forall>j w' ws rest now. jobRegistry j = reg' \<and> freeAlive j = w' # ws
              \<and> allPending reg' (fst tid) = tid # rest \<longrightarrow>
              (\<exists>j'. dispatchNext cfg j (fst tid) now = Inr j'
                 \<and> lookupTask (jobRegistry j') tid =
                     Some (t\<lparr>taskStatus := Dispatched, taskWorker := Some w',
                             taskDeadline := Some (now + deadlineT cfg)\<rparr>)))))
   \<and> (lookupTask reg tid = Some t \<and> (taskStatus t \<noteq> Dispatched \<or> taskDeadline t \<noteq> Some d) \<longrightarrow>
        markTimedOut reg tid d = Inr reg)"
proof (intro conjI impI)
  assume a: "lookupTask reg tid = Some t \<and> taskStatus t = Dispatched \<and> taskDeadline t = Some d"
  let ?p = "t\<lparr>taskStatus := Pending, taskWorker := None, taskDeadline := None\<rparr>"
  from a markTimedOut_expired[of reg tid t d] obtain reg' where
    m: "markTimedOut reg tid d = Inr reg'" and l: "lookupTask reg' tid = Some ?p"
    by blast
  have pend: "tid \<in> set (allPending reg' (fst tid))"
    using allPending_mem[of reg' "fst tid" "snd tid" ?p] l by simp
  have disp: "\<exists>reg''. markDispatched reg' tid w' d' = Inr reg''
              \<and> lookupTask reg'' tid =
                  Some (t\<lparr>taskStatus := Dispatched, taskWorker := Some w', taskDeadline := Some d'\<rparr>)"
    for w' d'
    using markDispatched_Pending[of reg' tid ?p w' d'] l by simp
  have pass: "\<exists>j'. dispatchNext cfg j (fst tid) now = Inr j'
                 \<and> lookupTask (jobRegistry j') tid =
                     Some (t\<lparr>taskStatus := Dispatched, taskWorker := Some w',
                             taskDeadline := Some (now + deadlineT cfg)\<rparr>)"
    if "jobRegistry j = reg' \<and> freeAlive j = w' # ws \<and> allPending reg' (fst tid) = tid # rest"
    for j w' ws rest now
  proof -
    from disp[of w' "now + deadlineT cfg"] obtain reg'' where
      d: "markDispatched reg' tid w' (now + deadlineT cfg) = Inr reg''"
      and l': "lookupTask reg'' tid =
                 Some (t\<lparr>taskStatus := Dispatched, taskWorker := Some w',
                         taskDeadline := Some (now + deadlineT cfg)\<rparr>)"
      by blast
    from that d have "dispatchNext cfg j (fst tid) now = Inr (j\<lparr>jobRegistry := reg''\<rparr>)"
      by (simp add: dispatchNext_def)
    with l' show ?thesis by simp
  qed
  show "\<exists>reg'. markTimedOut reg tid d = Inr reg'
         \<and> lookupTask reg' tid = Some ?p
         \<and> tid \<in> set (allPending reg' (fst tid))
         \<and> (\<forall>w' d'. \<exists>reg''. markDispatched reg' tid w' d' = Inr reg''
              \<and> lookupTask reg'' tid =
                  Some (t\<lparr>taskStatus := Dispatched, taskWorker := Some w', taskDeadline := Some d'\<rparr>))
         \<and> (\<forall>j w' ws rest now. jobRegistry j = reg' \<and> freeAlive j = w' # ws
              \<and> allPending reg' (fst tid) = tid # rest \<longrightarrow>
              (\<exists>j'. dispatchNext cfg j (fst tid) now = Inr j'
                 \<and> lookupTask (jobRegistry j') tid =
                     Some (t\<lparr>taskStatus := Dispatched, taskWorker := Some w',
                             taskDeadline := Some (now + deadlineT cfg)\<rparr>)))"
    using m l pend disp pass by blast
next
  assume "lookupTask reg tid = Some t \<and> (taskStatus t \<noteq> Dispatched \<or> taskDeadline t \<noteq> Some d)"
  then show "markTimedOut reg tid d = Inr reg"
    using markTimedOut_guard[of reg tid t d] by blast
qed

text \<open>
  The task of w1 times out and goes to w2, the only Alive endpoint; a stale deadline
  and a task already Completed are left alone.
\<close>

theorem markTimedOut_returns_to_Pending_witness:
  "lookupTask dispatchedRegistry (MapTask, 0) = Some dispatchedTask
   \<and> taskStatus dispatchedTask = Dispatched \<and> taskDeadline dispatchedTask = Some 10
   \<and> markTimedOut dispatchedRegistry (MapTask, 0) 10 = Inr pendingRegistry
   \<and> (MapTask, 0) \<in> set (allPending pendingRegistry MapTask)
   \<and> (\<exists>j'. dispatchNext demoSettings retryJob MapTask 12 = Inr j'
        \<and> lookupTask (jobRegistry j') (MapTask, 0) =
            Some (dispatchedTask\<lparr>taskStatus := Dispatched, taskWorker := Some ''w2'',
                                  taskDeadline := Some 22\<rparr>))
   \<and> markTimedOut dispatchedRegistry (MapTask, 0) 9 = Inr dispatchedRegistry
   \<and> markTimedOut completedRegistry (MapTask, 0) 10 = Inr completedRegistry"
proof -
  have h1: "lookupTask dispatchedRegistry (MapTask, 0) = Some dispatchedTask"
    by (simp add: dispatchedRegistry_def)
  have h2: "taskStatus dispatchedTask = Dispatched \<and> taskDeadline dispatchedTask = Some 10"
    by (simp add: dispatchedTask_def)
  have h3: "taskDeadline dispatchedTask \<noteq> Some 9"
    by (simp add: dispatchedTask_def)
  have h4: "lookupTask completedRegistry (MapTask, 0) = Some completedTask
            \<and> taskStatus completedTask \<noteq> Dispatched"
    by (simp add: completedRegistry_def completedTask_def)
  have e: "markTimedOut dispatchedRegistry (MapTask, 0) 10 = Inr pendingRegistry"
    by (simp add: markTimedOut_def dispatchedRegistry_def dispatchedTask_def
          pendingRegistry_def pendingTask_def)
  have r: "jobRegistry retryJob = pendingRegistry \<and> freeAlive retryJob = [''w2'']
           \<and> allPending pendingRegistry MapTask = [(MapTask, 0)]"
    by code_simp
  have t: "deadlineT demoSettings = 10"
    by (simp add: demoSettings_def)
  note timed = markTimedOut_returns_to_Pending
  from timed[of dispatchedRegistry "(MapTask, 0)" dispatchedTask 10 demoSettings] h1 h2 e
  have pend: "(MapTask, 0) \<in> set (allPending pendingRegistry MapTask)"
    and pass: "\<forall>j w' ws rest now. jobRegistry j = pendingRegistry \<and> freeAlive j = w' # ws
              \<and> allPending pendingRegistry MapTask = (MapTask, 0) # rest \<longrightarrow>
              (\<exists>j'. dispatchNext demoSettings j MapTask now = Inr j'
                 \<and> lookupTask (jobRegistry j') (MapTask, 0) =
                     Some (dispatchedTask\<lparr>taskStatus := Dispatched, taskWorker := Some w',
                             taskDeadline := Some (now + deadlineT demoSettings)\<rparr>))"
    by auto
  from pass r t
  have again: "\<exists>j'. dispatchNext demoSettings retryJob MapTask 12 = Inr j'
        \<and> lookupTask (jobRegistry j') (MapTask, 0) =
            Some (dispatchedTask\<lparr>taskStatus := Dispatched, taskWorker := Some ''w2'',
                                  taskDeadline := Some 22\<rparr>)"
    by fastforce
  from timed[of dispatchedRegistry "(MapTask, 0)" dispatchedTask 9 demoSettings] h1 h3
  have stale: "markTimedOut dispatchedRegistry (MapTask, 0) 9 = Inr dispatchedRegistry"
    by blast
  from timed[of completedRegistry "(MapTask, 0)" completedTask 10 demoSettings] h4
  have wins: "markTimedOut completedRegistry (MapTask, 0) 10 = Inr completedRegistry"
    by blast
  from h1 h2 e pend again stale wins show ?thesis by blast
qed

text \<open>
  Claim C5 (wire protocol). The service has exactly the three operations Map, Reduce
  and Ping. Map takes two strings (file path, map function) and returns a list of
  (key, value) string pairs; Reduce takes a list of (key, value) string pairs and a
  string (reduce function) and returns one string; Ping takes an empty message and
  returns one string (status).
\<close>

theorem wire_protocol_three_operations:
  "map rpcName MapReduceService = [''Map'', ''Reduce'', ''Ping'']
   \<and> requestShape ''Map'' =
       Some (TupleShape [(''file_path'', StringShape), (''map_function'', StringShape)])
   \<and> responseShape ''Map'' = Some (TupleShape [(''intermediate_results'', keyValuePairs)])
   \<and> requestShape ''Reduce'' =
       Some (TupleShape [(''intermediate_results'', keyValuePairs),
                         (''reduce_function'', StringShape)])
   \<and> responseShape ''Reduce'' = Some (TupleShape [(''final_result'', StringShape)])
   \<and> requestShape ''Ping'' = Some (TupleShape [])
   \<and> responseShape ''Ping'' = Some (TupleShape [(''status'', StringShape)])"
proof -
  have names: "map rpcName MapReduceService = [''Map'', ''Reduce'', ''Ping'']"
    by (simp add: MapReduceService_def)
  have q1: "requestShape ''Map'' =
       Some (TupleShape [(''file_path'', StringShape), (''map_function'', StringShape)])"
    by code_simp
  have p1: "responseShape ''Map'' = Some (TupleShape [(''intermediate_results'', keyValuePairs)])"
    by code_simp
  have q2: "requestShape ''Reduce'' =
       Some (TupleShape [(''intermediate_results'', keyValuePairs),
                         (''reduce_function'', StringShape)])"
    by code_simp
  have p2: "responseShape ''Reduce'' = Some (TupleShape [(''final_result'', StringShape)])"
    by code_simp
  have q3: "requestShape ''Ping'' = Some (TupleShape [])"
    by code_simp
  have p3: "responseShape ''Ping'' = Some (TupleShape [(''status'', StringShape)])"
    by code_simp
  from names q1 p1 q2 p2 q3 p3 show ?thesis by blast
qed

text \<open>
  Claim C6 (construction of the coordinator). In coordinator mode the entry point calls
  MakeCoordinator exactly once, with the arguments from position 2 onward in their
  order and with R = 10, a positive number, and the coordinator it then polls is the
  value of that call: every answer of Done in the run is the answer of the coordinator
  constructed from these arguments after that many sleeps, Done is asked as soon as the
  loop is observed at all, and run returns nil exactly when that coordinator becomes
  done within the observed polls.
\<close>

theorem run_constructs_coordinator:
  "minArgs \<le> length args \<Longrightarrow> args ! 1 = coordinatorArg \<Longrightarrow>
     (\<exists>files R. coordinatorCalls (fst (run w fuel args)) = [(files, R)]
        \<and> R = 10 \<and> 0 < R
        \<and> length files = length args - 2
        \<and> (\<forall>i<length files. files ! i = args ! (i + 2))
        \<and> (0 < fuel \<longrightarrow> doneAnswers (fst (run w fuel args)) \<noteq> [])
        \<and> (\<forall>k<length (doneAnswers (fst (run w fuel args))).
              doneAnswers (fst (run w fuel args)) ! k =
                mr_Done w ((mr_elapse w ^^ k) (mr_MakeCoordinator w files R)))
        \<and> (snd (run w fuel args) = Return None \<longleftrightarrow>
              (\<exists>k<fuel. mr_Done w ((mr_elapse w ^^ k) (mr_MakeCoordinator w files R)))))"
proof -
  assume a: "minArgs \<le> length args" "args ! 1 = coordinatorArg"
  let ?m = "mr_MakeCoordinator w (drop 2 args) 10"
  from a have len: "2 \<le> length args" by (simp add: minArgs_def)
  from a have r: "run w fuel args = runCoordinator w fuel args"
    by (simp add: run_def)
  have m: "polled w args 0 = ?m"
    by (simp add: polled_def)
  have calls: "coordinatorCalls (fst (run w fuel args)) = [(drop 2 args, 10)]"
    using r runCoordinator_calls[OF len] by simp
  have ans: "doneAnswers (fst (run w fuel args)) = doneAnswers (fst (pollDone w fuel ?m))"
    using r m runCoordinator_doneAnswers[OF len, of w fuel] by simp
  have first: "0 < fuel \<longrightarrow> doneAnswers (fst (run w fuel args)) \<noteq> []"
    using ans pollDone_first_answer[of fuel w ?m] by simp
  have each: "\<forall>k<length (doneAnswers (fst (run w fuel args))).
              doneAnswers (fst (run w fuel args)) ! k = mr_Done w ((mr_elapse w ^^ k) ?m)"
    using ans pollDone_answers[of _ w fuel ?m] by simp
  have ret: "snd (run w fuel args) = Return None \<longleftrightarrow>
               (\<exists>k<fuel. mr_Done w ((mr_elapse w ^^ k) ?m))"
    using r m runCoordinator_snd[OF len, of w fuel] pollDone_returns_iff[of w fuel ?m]
    by simp
  have args: "length (drop 2 args) = length args - 2
        \<and> (\<forall>i<length (drop 2 args). drop 2 args ! i = args ! (i + 2))"
    by (simp add: add.commute)
  from calls first each ret args show ?thesis
    by (intro exI[of _ "drop 2 args"] exI[of _ 10]) simp
qed

text \<open>
  The command line mr_main mrcoordinator pg-1.txt pg-2.txt, in a world whose Done
  tells what the coordinator was constructed from: run returns only when the expected
  construction is the split list pg-1.txt, pg-2.txt in this order with R = 10.
\<close>

theorem run_constructs_coordinator_witness:
  "minArgs \<le> length coordinatorArgs \<and> coordinatorArgs ! 1 = coordinatorArg
   \<and> coordinatorCalls (fst (run demoWorld 1 coordinatorArgs)) = [([''pg-1.txt'', ''pg-2.txt''], 10)]
   \<and> run (probeWorld ([''pg-1.txt'', ''pg-2.txt''], 10)) 3 coordinatorArgs =
       ([MakeCoordinatorCall [''pg-1.txt'', ''pg-2.txt''] 10, DoneCall True, Sleep sleepDuration],
        Return None)
   \<and> snd (run (probeWorld ([''pg-2.txt'', ''pg-1.txt''], 10)) 3 coordinatorArgs) \<noteq> Return None
   \<and> snd (run (probeWorld ([''pg-1.txt'', ''pg-2.txt''], 9)) 3 coordinatorArgs) \<noteq> Return None
   \<and> snd (run (probeWorld ([], 10)) 3 coordinatorArgs) \<noteq> Return None"
proof -
  have h1: "minArgs \<le> length coordinatorArgs"
    by (simp add: minArgs_def coordinatorArgs_def)
  have h2: "coordinatorArgs ! 1 = coordinatorArg"
    by (simp add: coordinatorArgs_def coordinatorArg_def)
  have same: "(mr_elapse (probeWorld e) ^^ k) c = c" for e k c
    by (induction k) (simp_all add: probeWorld_def)
  have files: "fs = [''pg-1.txt'', ''pg-2.txt'']"
    if l: "length fs = length coordinatorArgs - 2"
      and f: "\<forall>i<length fs. fs ! i = coordinatorArgs ! (i + 2)" for fs
  proof -
    from l have l2: "length fs = 2" by (simp add: coordinatorArgs_def)
    from f l2 have "fs ! 0 = ''pg-1.txt''" "fs ! 1 = ''pg-2.txt''"
      by (simp_all add: coordinatorArgs_def)
    with l2 show ?thesis
      by (cases fs; cases "tl fs"; cases "tl (tl fs)") auto
  qed
  have calls: "coordinatorCalls (fst (run demoWorld 1 coordinatorArgs)) =
                 [([''pg-1.txt'', ''pg-2.txt''], 10)]"
  proof -
    from run_constructs_coordinator[OF h1 h2, of demoWorld 1]
    obtain fs R where
      c: "coordinatorCalls (fst (run demoWorld 1 coordinatorArgs)) = [(fs, R)]"
      and r: "R = 10" and l: "length fs = length coordinatorArgs - 2"
      and f: "\<forall>i<length fs. fs ! i = coordinatorArgs ! (i + 2)"
      by (elim exE conjE)
    from files[OF l f] c r show ?thesis by simp
  qed
  have seen: "snd (run (probeWorld e) 3 coordinatorArgs) = Return None \<longleftrightarrow>
                e = ([''pg-1.txt'', ''pg-2.txt''], 10)" for e
  proof -
    from run_constructs_coordinator[OF h1 h2, of "probeWorld e" 3]
    obtain fs R where
      r: "R = 10" and l: "length fs = length coordinatorArgs - 2"
      and f: "\<forall>i<length fs. fs ! i = coordinatorArgs ! (i + 2)"
      and ret: "snd (run (probeWorld e) 3 coordinatorArgs) = Return None \<longleftrightarrow>
              (\<exists>k<3. mr_Done (probeWorld e)
                 ((mr_elapse (probeWorld e) ^^ k) (mr_MakeCoordinator (probeWorld e) fs R)))"
      by (elim exE conjE)
    have fs: "fs = [''pg-1.txt'', ''pg-2.txt'']"
      by (rule files[OF l f])
    have made: "mr_MakeCoordinator (probeWorld e) fs R = (fs, R)"
      by (simp add: probeWorld_def)
    have answer: "mr_Done (probeWorld e) c \<longleftrightarrow> c = e" for c
      by (simp add: probeWorld_def)
    have some: "(\<exists>k<3::nat. P) \<longleftrightarrow> P" for P
      by (auto intro: exI[of _ 0])
    from ret have "snd (run (probeWorld e) 3 coordinatorArgs) = Return None \<longleftrightarrow> (fs, R) = e"
      by (simp only: same made answer some)
    then show ?thesis
      unfolding fs r by (rule trans) (rule eq_commute)
  qed
  have run3: "run (probeWorld ([''pg-1.txt'', ''pg-2.txt''], 10)) 3 coordinatorArgs =
       ([MakeCoordinatorCall [''pg-1.txt'', ''pg-2.txt''] 10, DoneCall True, Sleep sleepDuration],
        Return None)"
  proof -
    let ?w = "probeWorld ([''pg-1.txt'', ''pg-2.txt''], 10)"
    have r: "run ?w 3 coordinatorArgs = runCoordinator ?w 3 coordinatorArgs"
      by (simp add: run_def coordinatorArgs_def minArgs_def coordinatorArg_def)
    have d: "drop 2 coordinatorArgs = [''pg-1.txt'', ''pg-2.txt'']"
      "\<not> length coordinatorArgs < 2"
      by (simp_all add: coordinatorArgs_def)
    have m: "mr_MakeCoordinator ?w [''pg-1.txt'', ''pg-2.txt''] 10 =
               ([''pg-1.txt'', ''pg-2.txt''], 10)"
      by (simp add: probeWorld_def)
    have p: "pollDone ?w 3 ([''pg-1.txt'', ''pg-2.txt''], 10) = ([DoneCall True], Return ())"
      by (rule pollDone_at_once) (simp_all add: probeWorld_def)
    show ?thesis
      by (simp add: r runCoordinator_def Let_def d m p)
  qed
  have other:
    "snd (run (probeWorld ([''pg-2.txt'', ''pg-1.txt''], 10)) 3 coordinatorArgs) \<noteq> Return None"
    "snd (run (probeWorld ([''pg-1.txt'', ''pg-2.txt''], 9)) 3 coordinatorArgs) \<noteq> Return None"
    "snd (run (probeWorld ([], 10)) 3 coordinatorArgs) \<noteq> Return None"
    by (simp_all add: seen)
  from h1 h2 calls run3 other show ?thesis
    by (intro conjI)
qed

text \<open>
  Claim C7, as amended (plugin resolution). loadPlugin returns both functions and a nil
  error when the plugin opens and exports Map and Reduce with the expected function
  types. When the plugin cannot be opened or one of the two symbols is missing,
  loadPlugin returns nil functions and a non-nil error, runWorker returns that error
  and mr.Worker is never called.
\<close>

theorem loadPlugin_resolves_or_fails:
  "(plugin_Open w f = Inr p \<and> p ''Map'' = Inr (MapFunc m) \<and> p ''Reduce'' = Inr (ReduceFunc r) \<longrightarrow>
      loadPlugin w f = Return (Some m, Some r, None))
   \<and> (plugin_Open w f = Inl e \<or>
       (plugin_Open w f = Inr p \<and> (isl (p ''Map'') \<or> isl (p ''Reduce''))) \<longrightarrow>
      (\<exists>err. loadPlugin w f = Return (None, None, Some err)
         \<and> (2 < length args \<and> args ! 2 = f \<longrightarrow> runWorker w args = ([], Return (Some err)))))"
proof (intro conjI impI)
  assume "plugin_Open w f = Inr p \<and> p ''Map'' = Inr (MapFunc m) \<and> p ''Reduce'' = Inr (ReduceFunc r)"
  then show "loadPlugin w f = Return (Some m, Some r, None)"
    by (simp add: loadPlugin_resolved)
next
  assume "plugin_Open w f = Inl e \<or>
          (plugin_Open w f = Inr p \<and> (isl (p ''Map'') \<or> isl (p ''Reduce'')))"
  then obtain err where l: "loadPlugin w f = Return (None, None, Some err)"
    using loadPlugin_cannot_open[of w f e] loadPlugin_missing[of w f p] by blast
  then show "\<exists>err. loadPlugin w f = Return (None, None, Some err)
         \<and> (2 < length args \<and> args ! 2 = f \<longrightarrow> runWorker w args = ([], Return (Some err)))"
    using runWorker_error[OF l] by blast
qed

text \<open>
  A well-formed plugin, a missing file, and a plugin without Reduce.
\<close>

theorem loadPlugin_resolves_or_fails_witness:
  "loadPlugin demoWorld ''wc.so'' = Return (Some wcMap, Some wcReduce, None)
   \<and> plugin_Open demoWorld ''missing.so'' = Inl noSuchFile
   \<and> runWorker demoWorld (workerArgs ''missing.so'') =
       ([], Return (Some (cannotLoadPluginError ''missing.so'' noSuchFile)))
   \<and> plugin_Open demoWorld ''maponly.so'' = Inr mapOnlyPlugin
   \<and> isl (mapOnlyPlugin ''Reduce'')
   \<and> runWorker demoWorld (workerArgs ''maponly.so'') =
       ([], Return (Some (cannotFindError ''Reduce'' symbolNotFound)))"
proof -
  have o1: "plugin_Open demoWorld ''wc.so'' = Inr wcPlugin
            \<and> wcPlugin ''Map'' = Inr (MapFunc wcMap) \<and> wcPlugin ''Reduce'' = Inr (ReduceFunc wcReduce)"
    by (simp add: demoWorld_def demoOpen_def wcPlugin_def)
  have o2: "plugin_Open demoWorld ''missing.so'' = Inl noSuchFile"
    by (simp add: demoWorld_def demoOpen_def)
  have o3: "plugin_Open demoWorld ''maponly.so'' = Inr mapOnlyPlugin \<and> isl (mapOnlyPlugin ''Reduce'')"
    by (simp add: demoWorld_def demoOpen_def mapOnlyPlugin_def)
  have a2: "2 < length (workerArgs ''missing.so'') \<and> workerArgs ''missing.so'' ! 2 = ''missing.so''"
    by (simp add: workerArgs_def)
  have a3: "2 < length (workerArgs ''maponly.so'') \<and> workerArgs ''maponly.so'' ! 2 = ''maponly.so''"
    by (simp add: workerArgs_def)
  have l2: "loadPlugin demoWorld ''missing.so'' =
              Return (None, None, Some (cannotLoadPluginError ''missing.so'' noSuchFile))"
    by (simp add: loadPlugin_def demoWorld_def demoOpen_def)
  have l3: "loadPlugin demoWorld ''maponly.so'' =
              Return (None, None, Some (cannotFindError ''Reduce'' symbolNotFound))"
    by (simp add: loadPlugin_def lookupPluginFunc_def demoWorld_def demoOpen_def mapOnlyPlugin_def)
  show ?thesis
    using o1 o2 o3 a2 a3 l2 l3
      loadPlugin_resolves_or_fails[of demoWorld "''wc.so''" wcPlugin wcMap wcReduce noSuchFile "[]"]
      loadPlugin_resolves_or_fails[of demoWorld "''missing.so''" wcPlugin wcMap wcReduce noSuchFile
        "workerArgs ''missing.so''"]
      loadPlugin_resolves_or_fails[of demoWorld "''maponly.so''" mapOnlyPlugin wcMap wcReduce noSuchFile
        "workerArgs ''maponly.so''"]
    by auto
qed

text \<open>
  Claim C7 as stated fails: a plugin that opens and exports both symbols, Map being a
  variable of type int, makes loadPlugin panic instead of returning the two functions.
\<close>

theorem loadPlugin_mistyped_Map_counterexample:
  "plugin_Open demoWorld ''mistyped.so'' = Inr mistypedPlugin
   \<and> mistypedPlugin ''Map'' = Inr (OtherSymbol ''*int'')
   \<and> mistypedPlugin ''Reduce'' = Inr (ReduceFunc wcReduce)
   \<and> loadPlugin demoWorld ''mistyped.so'' = Panic notMapFunc
   \<and> runWorker demoWorld (workerArgs ''mistyped.so'') = ([], Panic notMapFunc)"
  by (simp add: loadPlugin_def lookupPluginFunc_def runWorker_def workerArgs_def
        demoWorld_def demoOpen_def mistypedPlugin_def)

text \<open>
  Claim C8 (exit only after Done). Whenever runCoordinator returns, it returns nil, and
  Done has answered true at the last of its calls and false at every earlier one. If
  Done never becomes true, then however long the loop is observed it is still polling:
  it has not returned, has not panicked, and every answer of Done was false. If Done is
  true at some poll, an observation that long sees runCoordinator return nil.
\<close>

theorem runCoordinator_returns_only_after_Done:
  "(\<forall>tr e. runCoordinator w fuel args = (tr, Return e) \<longrightarrow>
       e = None \<and> (\<exists>k<fuel. mr_Done w (polled w args k) \<and>
                     doneAnswers tr = replicate k False @ [True]))
   \<and> (2 \<le> length args \<and> (\<forall>k. \<not> mr_Done w (polled w args k)) \<longrightarrow>
        snd (runCoordinator w fuel args) = Polling \<and>
        doneAnswers (fst (runCoordinator w fuel args)) = replicate fuel False)
   \<and> (2 \<le> length args \<and> mr_Done w (polled w args k) \<and> k < fuel \<longrightarrow>
        snd (runCoordinator w fuel args) = Return None)"
proof (intro conjI allI impI)
  fix tr e
  assume "runCoordinator w fuel args = (tr, Return e)"
  from runCoordinator_Return[OF this]
  show "e = None" 
    and "\<exists>k<fuel. mr_Done w (polled w args k) \<and> doneAnswers tr = replicate k False @ [True]"
    by simp_all
next
  assume a: "2 \<le> length args \<and> (\<forall>k. \<not> mr_Done w (polled w args k))"
  then have "\<And>k. k < fuel \<Longrightarrow> \<not> mr_Done w ((mr_elapse w ^^ k) (polled w args 0))"
    by (simp add: polled_def)
  from pollDone_never[OF this] a
  show "snd (runCoordinator w fuel args) = Polling"
    and "doneAnswers (fst (runCoordinator w fuel args)) = replicate fuel False"
    by (simp_all add: runCoordinator_snd runCoordinator_doneAnswers)
next
  assume a: "2 \<le> length args \<and> mr_Done w (polled w args k) \<and> k < fuel"
  then have "mr_Done w ((mr_elapse w ^^ k) (polled w args 0))"
    by (simp add: polled_def)
  from pollDone_eventually[OF this] a
  show "snd (runCoordinator w fuel args) = Return None"
    by (simp add: runCoordinator_snd)
qed

text \<open>
  A coordinator that is done after two sleeps returns nil after three polls; one that
  is never done is still polling after five; and so is the modelled core with every
  worker Unresponsive, whose phase stays Mapping.
\<close>

theorem runCoordinator_returns_only_after_Done_witness:
  "runCoordinator demoWorld 5 coordinatorArgs =
     ([MakeCoordinatorCall [''pg-1.txt'', ''pg-2.txt''] 10,
       DoneCall False, Sleep sleepDuration, DoneCall False, Sleep sleepDuration,
       DoneCall True, Sleep sleepDuration], Return None)
   \<and> mr_Done demoWorld (polled demoWorld coordinatorArgs 2)
   \<and> 2 \<le> length coordinatorArgs
   \<and> (\<forall>k. \<not> mr_Done stalledWorld (polled stalledWorld coordinatorArgs k))
   \<and> snd (runCoordinator stalledWorld 5 coordinatorArgs) = Polling
   \<and> doneAnswers (fst (runCoordinator stalledWorld 5 coordinatorArgs)) = replicate 5 False
   \<and> (\<forall>k. \<not> mr_Done coreWorld (polled coreWorld coordinatorArgs k))
   \<and> snd (runCoordinator coreWorld 7 coordinatorArgs) = Polling"
proof -
  have run5: "runCoordinator demoWorld 5 coordinatorArgs =
     ([MakeCoordinatorCall [''pg-1.txt'', ''pg-2.txt''] 10,
       DoneCall False, Sleep sleepDuration, DoneCall False, Sleep sleepDuration,
       DoneCall True, Sleep sleepDuration], Return None)"
    by (simp add: runCoordinator_def demoWorld_def coordinatorArgs_def eval_nat_numeral)
  have len: "2 \<le> length coordinatorArgs"
    by (simp add: coordinatorArgs_def)
  have d: "mr_Done demoWorld (polled demoWorld coordinatorArgs 2)"
    by (simp add: demo_polled) (simp add: demoWorld_def)
  have never: "\<forall>k. \<not> mr_Done stalledWorld (polled stalledWorld coordinatorArgs k)"
    by (simp add: stalled_never)
  have core: "\<forall>k. \<not> mr_Done coreWorld (polled coreWorld coordinatorArgs k)"
    by (simp add: coreWorld_never_Done)
  show ?thesis
    using run5 len d never core
      runCoordinator_returns_only_after_Done[of demoWorld 5 coordinatorArgs 2]
      runCoordinator_returns_only_after_Done[of stalledWorld 5 coordinatorArgs 0]
      runCoordinator_returns_only_after_Done[of coreWorld 7 coordinatorArgs 0]
    by simp
qed

text \<open>
  Claim C9, as amended (errors of run). run returns a non-nil error exactly when there
  are fewer than three arguments, or the first argument is neither mrcoordinator nor
  mrworker, or the first argument is mrworker and loadPlugin returns an error for the
  second. In each of these cases neither MakeCoordinator nor mr.Worker is called. Too
  few arguments give the usage error, an unknown mode gives the invalid-argument error,
  and the two messages differ.
\<close>

theorem run_error_exactly_when:
  "((\<exists>e. snd (run w fuel args) = Return (Some e)) \<longleftrightarrow>
      (length args < minArgs
       \<or> (minArgs \<le> length args \<and> args ! 1 \<noteq> coordinatorArg \<and> args ! 1 \<noteq> workerArg)
       \<or> (minArgs \<le> length args \<and> args ! 1 = workerArg
           \<and> (\<exists>m r e. loadPlugin w (args ! 2) = Return (m, r, Some e)))))
   \<and> ((\<exists>e. snd (run w fuel args) = Return (Some e)) \<longrightarrow> fst (run w fuel args) = [])
   \<and> (length args < minArgs \<longrightarrow> run w fuel args = ([], Return (Some usageError)))
   \<and> (minArgs \<le> length args \<and> args ! 1 \<noteq> coordinatorArg \<and> args ! 1 \<noteq> workerArg \<longrightarrow>
        run w fuel args = ([], Return (Some (invalidArgumentError (args ! 1)))))
   \<and> Error usageError \<noteq> Error (invalidArgumentError (args ! 1))"
proof -
  consider (few) "length args < minArgs"
    | (coord) "minArgs \<le> length args" "args ! 1 = coordinatorArg"
    | (work) "minArgs \<le> length args" "args ! 1 \<noteq> coordinatorArg" "args ! 1 = workerArg"
    | (bad) "minArgs \<le> length args" "args ! 1 \<noteq> coordinatorArg" "args ! 1 \<noteq> workerArg"
    by fastforce
  then show ?thesis
  proof cases
    case few
    then show ?thesis by (simp add: run_def usage_not_invalid)
  next
    case coord
    then have r: "run w fuel args = runCoordinator w fuel args" and len: "2 \<le> length args"
      by (simp_all add: run_def minArgs_def)
    have "\<not> (\<exists>e. snd (runCoordinator w fuel args) = Return (Some e))"
      by (simp add: runCoordinator_snd[OF len])
    with coord r show ?thesis
      by (simp add: usage_not_invalid coordinatorArg_def workerArg_def)
  next
    case work
    then have r: "run w fuel args = runWorker w args" and len: "2 < length args"
      by (simp_all add: run_def minArgs_def)
    show ?thesis
      using work r runWorker_cases[OF len, of w] runWorker_error_trace[of w args]
      by (auto simp: usage_not_invalid)
  next
    case bad
    then show ?thesis by (simp add: run_def usage_not_invalid)
  qed
qed

text \<open>
  Too few arguments, an unknown mode, a plugin that cannot be opened, and a worker that
  starts.
\<close>

theorem run_error_exactly_when_witness:
  "length [''mr_main'', ''mrworker''] < minArgs
   \<and> run demoWorld 1 [''mr_main'', ''mrworker''] = ([], Return (Some usageError))
   \<and> minArgs \<le> length [''mr_main'', ''mrmaster'', ''wc.so'']
   \<and> run demoWorld 1 [''mr_main'', ''mrmaster'', ''wc.so''] =
       ([], Return (Some (invalidArgumentError ''mrmaster'')))
   \<and> (\<exists>e. snd (run demoWorld 1 (workerArgs ''missing.so'')) = Return (Some e))
   \<and> fst (run demoWorld 1 (workerArgs ''missing.so'')) = []
   \<and> \<not> (\<exists>e. snd (run demoWorld 1 (workerArgs ''wc.so'')) = Return (Some e))"
proof -
  have l: "loadPlugin demoWorld ''missing.so'' =
             Return (None, None, Some (cannotLoadPluginError ''missing.so'' noSuchFile))"
    by (simp add: loadPlugin_def demoWorld_def demoOpen_def)
  have l2: "loadPlugin demoWorld ''wc.so'' = Return (Some wcMap, Some wcReduce, None)"
    by (simp add: loadPlugin_def lookupPluginFunc_def demoWorld_def demoOpen_def wcPlugin_def)
  show ?thesis
    using l l2
      run_error_exactly_when[of demoWorld 1 "[''mr_main'', ''mrworker'']"]
      run_error_exactly_when[of demoWorld 1 "[''mr_main'', ''mrmaster'', ''wc.so'']"]
      run_error_exactly_when[of demoWorld 1 "workerArgs ''missing.so''"]
      run_error_exactly_when[of demoWorld 1 "workerArgs ''wc.so''"]
    by (simp add: minArgs_def workerArgs_def coordinatorArg_def workerArg_def)
qed

text \<open>
  Claim C9 as stated fails: with three arguments and mode mrworker, a plugin that cannot
  be opened makes run return a non-nil error, and nothing was started.
\<close>

theorem run_plugin_error_counterexample:
  "\<not> length (workerArgs ''missing.so'') < minArgs
   \<and> workerArgs ''missing.so'' ! 1 = workerArg
   \<and> run demoWorld 1 (workerArgs ''missing.so'') =
       ([], Return (Some (cannotLoadPluginError ''missing.so'' noSuchFile)))"
  by (simp add: run_def runWorker_def loadPlugin_def workerArgs_def minArgs_def
        coordinatorArg_def workerArg_def demoWorld_def demoOpen_def)

text \<open>
  Claim C10 (unchecked type assertions). When the plugin opens and exports both symbols
  but Map or Reduce has another type than the expected function type, loadPlugin
  panics, and so does runWorker, before mr.Worker is called: no error is returned.
\<close>

theorem loadPlugin_unchecked_assertion_panics:
  assumes "plugin_Open w f = Inr p" "p ''Map'' = Inr s1" "p ''Reduce'' = Inr s2"
    and "\<not> isMapFunc s1 \<or> \<not> isReduceFunc s2"
  shows "\<exists>msg. loadPlugin w f = Panic msg
           \<and> (2 < length args \<and> args ! 2 = f \<longrightarrow> runWorker w args = ([], Panic msg))"
proof -
  have "\<exists>msg. loadPlugin w f = Panic msg"
  proof (cases "isMapFunc s1")
    case False
    then have "assertMapFunc (Some s1) = Panic notMapFunc"
      by (cases s1) simp_all
    with assms(1-3) show ?thesis
      by (simp add: loadPlugin_def lookupPluginFunc_def)
  next
    case True
    then obtain m where m: "s1 = MapFunc m" by (cases s1) simp_all
    from True assms(4) have "assertReduceFunc (Some s2) = Panic notReduceFunc"
      by (cases s2) simp_all
    with assms(1-3) m show ?thesis
      by (simp add: loadPlugin_def lookupPluginFunc_def)
  qed
  then obtain msg where l: "loadPlugin w f = Panic msg" by blast
  show ?thesis
    using l runWorker_panic[OF l] by blast
qed

text \<open>
  A plugin whose Reduce has the signature of Map: the worker process panics.
\<close>

theorem loadPlugin_unchecked_assertion_panics_witness:
  "plugin_Open demoWorld ''mistyped_reduce.so'' = Inr mistypedReducePlugin
   \<and> mistypedReducePlugin ''Map'' = Inr (MapFunc wcMap)
   \<and> mistypedReducePlugin ''Reduce'' = Inr (MapFunc wcMap)
   \<and> \<not> isReduceFunc (MapFunc wcMap :: (string \<times> string) symbol)
   \<and> run demoWorld 1 (workerArgs ''mistyped_reduce.so'') = ([], Panic notReduceFunc)"
proof -
  have h1: "plugin_Open demoWorld ''mistyped_reduce.so'' = Inr mistypedReducePlugin"
    by (simp add: demoWorld_def demoOpen_def)
  have h2: "mistypedReducePlugin ''Map'' = Inr (MapFunc wcMap)"
    by (simp add: mistypedReducePlugin_def)
  have h3: "mistypedReducePlugin ''Reduce'' = Inr (MapFunc wcMap)"
    by (simp add: mistypedReducePlugin_def)
  have h4: "\<not> isMapFunc (MapFunc wcMap :: (string \<times> string) symbol)
            \<or> \<not> isReduceFunc (MapFunc wcMap :: (string \<times> string) symbol)"
    by simp
  have r: "run demoWorld 1 (workerArgs ''mistyped_reduce.so'') =
             runWorker demoWorld (workerArgs ''mistyped_reduce.so'')"
    by (simp add: run_def workerArgs_def minArgs_def coordinatorArg_def workerArg_def)
  have l: "loadPlugin demoWorld ''mistyped_reduce.so'' = Panic notReduceFunc"
    by (simp add: loadPlugin_def lookupPluginFunc_def h1 h2 h3)
  from loadPlugin_unchecked_assertion_panics[OF h1 h2 h3 h4,
         of "workerArgs ''mistyped_reduce.so''"]
  have "runWorker demoWorld (workerArgs ''mistyped_reduce.so'') = ([], Panic notReduceFunc)"
    using l by (auto simp: workerArgs_def)
  with h1 h2 h3 r show ?thesis by simp
qed

end
